theory Spec2Isabelle
  imports Complex_Main
begin

section \<open>Data model\<close>

text \<open>
  Documents are records, collections are lists of documents in natural order, so that
  \<open>findOne\<close> returns the first match and \<open>updateOne\<close> changes the first match, as the
  data store does. Object ids are strings, dates are milliseconds since the epoch,
  amounts are exact rationals (the source's doubles, without their rounding error).
\<close>

type_synonym object_id = string
type_synonym date = int

datatype error = Error string

datatype order_status = PENDING | PAID | FAILED | CANCELLED | REFUND_INITIATED | REFUNDED

text \<open>\<open>PAYMENT_FAILED\<close> is written by the webhook but is not in the schema's enum.\<close>

datatype cancel_reason =
  PAYMENT_TIMEOUT | MIN_PAYABLE_VIOLATION | USER_CANCELLED | ADMIN_CANCELLED
  | SYSTEM_CANCELLED | PAYMENT_FAILED

datatype membership_status = M_NONE | M_ACTIVE | M_EXPIRED | M_CANCELLED | M_REFUNDED

record order_item =
  product :: object_id
  titleSnapshot :: string
  priceSnapshot :: rat
  mrpSnapshot :: rat
  currencySnapshot :: string
  discountPercentSnapshot :: int

text \<open>The fields of the untyped \<open>paymentRaw\<close> object that the code reads or writes.\<close>

record payment_raw =
  raw_source :: "string option"
  raw_event :: "string option"
  raw_payload_id :: "string option"
  raw_razorpayOrderId :: "string option"
  raw_razorpayPaymentId :: "string option"
  raw_razorpaySignature :: "string option"
  raw_verifiedBy :: "string option"
  raw_refundInitiatedAt :: "date option"
  raw_refundRequest :: "string option"
  raw_refundCompletedAt :: "date option"
  raw_refund :: "string option"
  raw_refundErrors :: "(string \<times> date) list"

record order =
  oid :: object_id
  user :: object_id
  items :: "order_item list"
  membershipPlanKey :: "string option"
  membershipMonths :: int
  currency :: string
  subtotal :: rat
  tax :: rat
  convenienceFee :: rat
  total :: rat
  status :: order_status
  cancelReason :: "cancel_reason option"
  paymentOrderId :: "string option"
  paymentId :: "string option"
  paymentSignature :: "string option"
  paymentRaw :: "payment_raw option"
  promoCode :: "string option"
  promoDiscount :: rat
  completedAt :: "date option"
  createdAt :: date

record purchased_product =
  pp_product :: object_id
  purchasedAt :: date
  pp_source :: string

record membership_doc =
  planKey :: "string option"
  startedAt :: "date option"
  expiresAt :: "date option"
  mstatus :: membership_status

record membership_usage =
  periodStart :: "date option"
  downloadsUsed :: int
  remixRequestsUsed :: int

record user_doc =
  uid :: object_id
  purchasedProducts :: "purchased_product list"
  membership :: membership_doc
  membershipUsage :: membership_usage
  isBanned :: bool
  isDeleted :: bool

text \<open>The promo document as the order service reads it.\<close>

record promo =
  code :: string
  isActive :: bool
  promoExpiresAt :: "date option"
  minOrderAmount :: rat
  discountType :: string
  discountValue :: rat
  maxDiscount :: rat
  usageLimit :: "int option"
  usedCount :: int

record product_doc =
  pid :: object_id
  slug :: string
  title :: string
  price :: rat
  mrp :: rat
  pcurrency :: "string option"
  visibility :: string

record plan_doc =
  pkey :: string
  plan_price :: rat
  plan_currency :: "string option"
  plan_isActive :: bool

record database =
  orders :: "order list"
  users :: "user_doc list"
  promos :: "promo list"
  products :: "product_doc list"
  plans :: "plan_doc list"

text \<open>
  The process: the data store, the in-process promo cache (a \<open>Map\<close> in insertion order,
  each entry with the time it was stored), the reaper's run flag, and the refund calls
  made to the payment gateway so far (payment id, amount in minor units).
\<close>

record server =
  db :: database
  PROMO_CACHE :: "(string \<times> promo \<times> date) list"
  isRunning :: bool
  refundCalls :: "(string option \<times> int) list"

text \<open>
  What a call reads from outside the process: the clock, the date library's
  \<open>d.setMonth(d.getMonth() + k)\<close>, the driver's \<open>ObjectId.isValid\<close>, whether the user
  write inside the settlement transaction goes through, what the gateway's refund call
  answers (given the payment id and the amount in minor units), the webhook secret and
  the hex HMAC-SHA256 under it, whether the key secret is configured and the hex
  HMAC-SHA256 under it, \<open>s.trim().toUpperCase()\<close>, and whether the data store is
  connected.
\<close>

record env =
  now :: date
  setMonthPlus :: "date \<Rightarrow> int \<Rightarrow> date"
  isValidObjectId :: "string \<Rightarrow> bool"
  userSaveOk :: bool
  refundApi :: "string option \<Rightarrow> int \<Rightarrow> error + string"
  webhookSecret :: "string option"
  webhookHmac :: "string \<Rightarrow> string"
  keySecretSet :: bool
  hmacHex :: "string \<Rightarrow> string"
  trimUpper :: "string \<Rightarrow> string"
  dbConnected :: bool

section \<open>Collections\<close>

definition findOne :: "('a \<Rightarrow> bool) \<Rightarrow> 'a list \<Rightarrow> 'a option" where
  "findOne q xs = List.find q xs"

fun updateOne :: "('a \<Rightarrow> bool) \<Rightarrow> ('a \<Rightarrow> 'a) \<Rightarrow> 'a list \<Rightarrow> 'a list" where
  "updateOne q f [] = []"
| "updateOne q f (x # xs) = (if q x then f x # xs else x # updateOne q f xs)"

definition updateMany :: "('a \<Rightarrow> bool) \<Rightarrow> ('a \<Rightarrow> 'a) \<Rightarrow> 'a list \<Rightarrow> 'a list" where
  "updateMany q f xs = map (\<lambda>x. if q x then f x else x) xs"

text \<open>\<open>doc.save()\<close> writes the document back under its own id.\<close>

definition save_order :: "order \<Rightarrow> order list \<Rightarrow> order list" where
  "save_order o' os = updateOne (\<lambda>x. oid x = oid o') (\<lambda>_. o') os"

definition save_user :: "user_doc \<Rightarrow> user_doc list \<Rightarrow> user_doc list" where
  "save_user u' us = updateOne (\<lambda>x. uid x = uid u') (\<lambda>_. u') us"

text \<open>JavaScript truthiness of a nullable string: neither null nor empty.\<close>

fun truthy :: "string option \<Rightarrow> bool" where
  "truthy None = False"
| "truthy (Some s) = (s \<noteq> [])"

fun status_name :: "order_status \<Rightarrow> string" where
  "status_name PENDING = ''PENDING''"
| "status_name PAID = ''PAID''"
| "status_name FAILED = ''FAILED''"
| "status_name CANCELLED = ''CANCELLED''"
| "status_name REFUND_INITIATED = ''REFUND_INITIATED''"
| "status_name REFUNDED = ''REFUNDED''"

section \<open>Settlement (order service)\<close>

text \<open>
  \<open>updatePromoUsage\<close>: one conditional update; the filter and the increment are a single
  store operation. It reports how it went and the promo collection of the transaction.
\<close>

definition promoGuard :: "string \<Rightarrow> promo \<Rightarrow> bool" where
  "promoGuard c p \<longleftrightarrow>
     code p = c \<and> isActive p \<and>
     (usageLimit p = None \<or> usageLimit p = Some 0 \<or>
      (case usageLimit p of None \<Rightarrow> False | Some l \<Rightarrow> usedCount p < l))"

definition modifiedCount :: "('a \<Rightarrow> bool) \<Rightarrow> 'a list \<Rightarrow> nat" where
  "modifiedCount q xs = (if findOne q xs = None then 0 else 1)"

definition updatePromoUsage ::
  "string \<Rightarrow> database \<times> (string \<times> promo \<times> date) list
     \<Rightarrow> (error + unit) \<times> database \<times> (string \<times> promo \<times> date) list" where
  "updatePromoUsage c s =
     (case s of (d, cache) \<Rightarrow>
        let d' = d\<lparr>promos := updateOne (promoGuard c) (\<lambda>p. p\<lparr>usedCount := usedCount p + 1\<rparr>) (promos d)\<rparr>
        in if modifiedCount (promoGuard c) (promos d) \<noteq> 1
           then (Inl (Error ''Promo code usage limit exceeded''), d', cache)
           else (Inr (), d', filter (\<lambda>e. fst e \<noteq> c) cache))"

definition activateMembership_user :: "env \<Rightarrow> order \<Rightarrow> user_doc \<Rightarrow> user_doc" where
  "activateMembership_user e ord u =
     (let current = membership u;
          currentExpiry = expiresAt current;
          isActive = (mstatus current = M_ACTIVE \<and>
                      (case currentExpiry of None \<Rightarrow> False | Some x \<Rightarrow> x > now e) \<and>
                      planKey current = membershipPlanKey ord);
          u1 = (if \<not> isActive
                then u\<lparr>membershipUsage :=
                         \<lparr>periodStart = Some (now e), downloadsUsed = 0, remixRequestsUsed = 0\<rparr>\<rparr>
                else u);
          baseDate = (if isActive then the currentExpiry else now e);
          expires = setMonthPlus e baseDate
                      (if membershipMonths ord = 0 then 1 else membershipMonths ord)
      in u1\<lparr>membership :=
              \<lparr>planKey = membershipPlanKey ord,
               startedAt = (if isActive then startedAt current else Some (now e)),
               expiresAt = Some expires,
               mstatus = M_ACTIVE\<rparr>\<rparr>)"

definition user_save :: "env \<Rightarrow> user_doc \<Rightarrow> database \<Rightarrow> (error + unit) \<times> database" where
  "user_save e u d =
     (if userSaveOk e then (Inr (), d\<lparr>users := save_user u (users d)\<rparr>)
      else (Inl (Error ''user save failed''), d))"

definition activateMembership ::
  "env \<Rightarrow> order \<Rightarrow> user_doc \<Rightarrow> database \<Rightarrow> (error + unit) \<times> database" where
  "activateMembership e ord u d = user_save e (activateMembership_user e ord u) d"

definition newPurchases :: "env \<Rightarrow> order \<Rightarrow> user_doc \<Rightarrow> purchased_product list" where
  "newPurchases e ord u =
     (let productIds = map product (items ord);
          existing = set (map pp_product (purchasedProducts u))
      in map (\<lambda>i. \<lparr>pp_product = i, purchasedAt = now e, pp_source = ''order''\<rparr>)
             (filter (\<lambda>i. i \<notin> existing) productIds))"

definition grantProductAccess ::
  "env \<Rightarrow> order \<Rightarrow> user_doc \<Rightarrow> database \<Rightarrow> (error + unit) \<times> database" where
  "grantProductAccess e ord u d =
     (if map product (items ord) = [] then (Inr (), d)
      else if newPurchases e ord u \<noteq> []
      then user_save e (u\<lparr>purchasedProducts := purchasedProducts u @ newPurchases e ord u\<rparr>) d
      else (Inr (), d))"

text \<open>
  The body of the \<open>try\<close> block, run on the transaction's working copy of the store,
  in three parts: loading the user and granting access; the writes on a PENDING order;
  and the status gate in front of them. Each returns the working copy and the cache as
  they are when it returns or throws.
\<close>

definition grant_step :: "env \<Rightarrow> order \<Rightarrow> database \<Rightarrow> (error + unit) \<times> database" where
  "grant_step e ord d =
     (case findOne (\<lambda>x. uid x = user ord) (users d) of
        None \<Rightarrow> (Inl (Error ''Invalid user state''), d)
      | Some u \<Rightarrow>
          if isDeleted u \<or> isBanned u then (Inl (Error ''Invalid user state''), d)
          else if truthy (membershipPlanKey ord) then activateMembership e ord u d
          else grantProductAccess e ord u d)"

definition promo_step ::
  "order \<Rightarrow> database \<times> (string \<times> promo \<times> date) list
     \<Rightarrow> (error + unit) \<times> database \<times> (string \<times> promo \<times> date) list" where
  "promo_step ord s =
     (if truthy (promoCode ord) then updatePromoUsage (the (promoCode ord)) s
      else (Inr (), s))"

definition mark_paid :: "env \<Rightarrow> string \<Rightarrow> string \<Rightarrow> payment_raw \<Rightarrow> order \<Rightarrow> order" where
  "mark_paid e payId sig raw ord0 =
     ord0\<lparr>status := PAID, paymentId := Some payId, paymentSignature := Some sig,
          paymentRaw := Some raw, completedAt := Some (now e)\<rparr>"

definition settle_pending ::
  "env \<Rightarrow> order \<Rightarrow> database \<times> (string \<times> promo \<times> date) list
     \<Rightarrow> (error + order) \<times> database \<times> (string \<times> promo \<times> date) list" where
  "settle_pending e ord s =
     (let d1 = (fst s)\<lparr>orders := save_order ord (orders (fst s))\<rparr>
      in case promo_step ord (d1, snd s) of
           (Inl err, d2, cache2) \<Rightarrow> (Inl err, d2, cache2)
         | (Inr _, d2, cache2) \<Rightarrow>
             (case grant_step e ord d2 of
                (Inl err, d3) \<Rightarrow> (Inl err, d3, cache2)
              | (Inr _, d3) \<Rightarrow> (Inr ord, d3, cache2)))"

definition settle_txn ::
  "env \<Rightarrow> object_id \<Rightarrow> string \<Rightarrow> string \<Rightarrow> payment_raw
     \<Rightarrow> database \<times> (string \<times> promo \<times> date) list
     \<Rightarrow> (error + order) \<times> database \<times> (string \<times> promo \<times> date) list" where
  "settle_txn e i payId sig raw s =
     (case findOne (\<lambda>x. oid x = i) (orders (fst s)) of
        None \<Rightarrow> (Inl (Error ''Order not found''), s)
      | Some ord0 \<Rightarrow>
          if status ord0 = PAID then (Inr ord0, s)
          else if status ord0 \<noteq> PENDING
          then (Inl (Error (''Cannot process order with status: '' @ status_name (status ord0))), s)
          else settle_pending e (mark_paid e payId sig raw ord0) s)"

text \<open>
  \<open>markOrderPaidAndGrantAccess\<close>: the transaction commits the working copy when the body
  returns and drops it when the body throws; the promo cache is process memory and is
  not part of the transaction.
\<close>

definition markOrderPaidAndGrantAccess ::
  "env \<Rightarrow> object_id \<Rightarrow> string \<Rightarrow> string \<Rightarrow> payment_raw \<Rightarrow> server
     \<Rightarrow> (error + order) \<times> server" where
  "markOrderPaidAndGrantAccess e i payId sig raw st =
     (if \<not> isValidObjectId e i then (Inl (Error ''Invalid order ID''), st)
      else case settle_txn e i payId sig raw (db st, PROMO_CACHE st) of
             (Inr ord, d', cache') \<Rightarrow> (Inr ord, st\<lparr>db := d', PROMO_CACHE := cache'\<rparr>)
           | (Inl err, d', cache') \<Rightarrow> (Inl err, st\<lparr>PROMO_CACHE := cache'\<rparr>))"

section \<open>Refund service\<close>

definition emptyRaw :: payment_raw where
  "emptyRaw = \<lparr>raw_source = None, raw_event = None, raw_payload_id = None,
                raw_razorpayOrderId = None, raw_razorpayPaymentId = None,
                raw_razorpaySignature = None, raw_verifiedBy = None,
                raw_refundInitiatedAt = None, raw_refundRequest = None,
                raw_refundCompletedAt = None, raw_refund = None, raw_refundErrors = []\<rparr>"

definition rawOf :: "order \<Rightarrow> payment_raw" where
  "rawOf ord = (case paymentRaw ord of None \<Rightarrow> emptyRaw | Some r \<Rightarrow> r)"

text \<open>\<open>Math.round(x * 100)\<close>: the amount in the gateway's minor unit.\<close>

definition minorUnits :: "rat \<Rightarrow> int" where
  "minorUnits x = \<lfloor>x * 100 + 1 / 2\<rfloor>"

text \<open>
  \<open>initiateRefund(order)\<close> gets the caller's in-memory document. The pre-lock is one
  conditional update on the stored document (filter \<open>lockQuery\<close>, new content
  \<open>lockedDoc\<close>); the gateway call is logged in \<open>refundCalls\<close>; after it the locked
  document is saved with the refund (\<open>refundedDoc\<close>), or, when the call failed, the stored
  status is put back to PAID and the error recorded (\<open>rollbackDoc\<close>).
\<close>

definition lockQuery :: "order \<Rightarrow> order \<Rightarrow> bool" where
  "lockQuery ord x \<longleftrightarrow> oid x = oid ord \<and> status x = PAID"

definition lockedDoc :: "env \<Rightarrow> order \<Rightarrow> order" where
  "lockedDoc e x =
     x\<lparr>status := REFUND_INITIATED,
       paymentRaw := Some ((rawOf x)\<lparr>raw_refundInitiatedAt := Some (now e)\<rparr>)\<rparr>"

definition refundedDoc :: "string \<Rightarrow> order \<Rightarrow> order" where
  "refundedDoc refund locked =
     locked\<lparr>paymentRaw := Some ((rawOf locked)\<lparr>raw_refundRequest := Some refund\<rparr>)\<rparr>"

definition rollbackDoc :: "env \<Rightarrow> string \<Rightarrow> order \<Rightarrow> order" where
  "rollbackDoc e msg x =
     x\<lparr>status := PAID,
       paymentRaw := Some ((rawOf x)\<lparr>raw_refundErrors :=
                                        raw_refundErrors (rawOf x) @ [(msg, now e)]\<rparr>)\<rparr>"

definition initiateRefund :: "env \<Rightarrow> order \<Rightarrow> server \<Rightarrow> (error + string) \<times> server" where
  "initiateRefund e ord st =
     (if \<not> truthy (paymentId ord) then (Inl (Error ''Invalid order or missing paymentId''), st)
      else if status ord \<noteq> PAID
      then (Inl (Error (''Refund not allowed. Current status: '' @ status_name (status ord))), st)
      else
        (case findOne (lockQuery ord) (orders (db st)) of
           None \<Rightarrow> (Inl (Error ''Refund already in progress or completed''), st)
         | Some x \<Rightarrow>
             let locked = lockedDoc e x;
                 os1 = updateOne (lockQuery ord) (\<lambda>_. locked) (orders (db st));
                 calls = refundCalls st @ [(paymentId locked, minorUnits (total locked))]
             in (case refundApi e (paymentId locked) (minorUnits (total locked)) of
                   Inr refund \<Rightarrow>
                     (Inr refund,
                      st\<lparr>db := (db st)\<lparr>orders := save_order (refundedDoc refund locked) os1\<rparr>,
                         refundCalls := calls\<rparr>)
                 | Inl (Error msg) \<Rightarrow>
                     (Inl (Error msg),
                      st\<lparr>db := (db st)\<lparr>orders :=
                             updateOne (\<lambda>y. oid y = oid locked) (rollbackDoc e msg) os1\<rparr>,
                         refundCalls := calls\<rparr>))))"

section \<open>Gateway webhook\<close>

text \<open>
  A response is a status code with its text or message, or the body \<open>{success: true}\<close>
  (with an optional message) under status 200.
\<close>

datatype response = Response nat string | JsonSuccess "string option"

record payment_entity =
  pay_order_id :: string
  pay_id :: string

record refund_entity =
  refund_id :: string
  refund_payment_id :: string

record webhook_payload =
  wh_event :: string
  wh_payment :: "payment_entity option"
  wh_refund :: "refund_entity option"

text \<open>
  \<open>order.save()\<close> after the cancel reason was assigned validates it against the schema's
  enum, and throws when it is not in the enum.
\<close>

definition order_save :: "order \<Rightarrow> order list \<Rightarrow> error + order list" where
  "order_save ord os =
     (if cancelReason ord = Some PAYMENT_FAILED then Inl (Error ''Order validation failed'')
      else Inr (save_order ord os))"

definition webhookRaw :: "string \<Rightarrow> payment_entity \<Rightarrow> payment_raw" where
  "webhookRaw event payment =
     emptyRaw\<lparr>raw_source := Some ''razorpay-webhook'', raw_event := Some event,
              raw_payload_id := Some (pay_id payment)\<rparr>"

text \<open>
  \<open>handlePaymentEvent\<close>: \<open>Inl\<close> is an exception leaving the handler (no response was
  sent), \<open>Inr None\<close> is a return without a response, \<open>Inr (Some r)\<close> is the response sent.
\<close>

definition handlePaymentEvent ::
  "env \<Rightarrow> string \<Rightarrow> payment_entity \<Rightarrow> server \<Rightarrow> (error + response option) \<times> server" where
  "handlePaymentEvent e event payment st =
     (case findOne (\<lambda>x. paymentOrderId x = Some (pay_order_id payment)) (orders (db st)) of
        None \<Rightarrow> (Inr (Some (Response 200 ''Order not found'')), st)
      | Some ord \<Rightarrow>
          if status ord = PAID \<and> event = ''payment.captured''
          then (Inr (Some (Response 200 ''Already processed'')), st)
          else if status ord = CANCELLED
          then (Inr (Some (Response 200 ''Order cancelled earlier'')), st)
          else if event = ''payment.failed''
          then (if status ord = PENDING
                then (case order_save (ord\<lparr>status := FAILED, cancelReason := Some PAYMENT_FAILED,
                                           paymentRaw := Some (webhookRaw event payment)\<rparr>)
                             (orders (db st)) of
                        Inl err \<Rightarrow> (Inl err, st)
                      | Inr os \<Rightarrow> (Inr (Some (Response 200 ''Payment failed handled'')),
                                  st\<lparr>db := (db st)\<lparr>orders := os\<rparr>\<rparr>))
                else (Inr (Some (Response 200 ''Payment failed handled'')), st))
          else if event = ''payment.captured''
          then (if status ord \<noteq> PENDING
                then (Inr (Some (Response 200 ''Order not pending'')), st)
                else
                  (case markOrderPaidAndGrantAccess e (oid ord) (pay_id payment)
                          ''razorpay-webhook'' (webhookRaw event payment) st of
                     (Inr _, st1) \<Rightarrow> (Inr (Some (Response 200 ''Payment captured & delivered'')), st1)
                   | (Inl _, st1) \<Rightarrow>
                       let ord' = ord\<lparr>status := FAILED, cancelReason := Some SYSTEM_CANCELLED\<rparr>
                       in (case order_save ord' (orders (db st1)) of
                             Inl err \<Rightarrow> (Inl err, st1)
                           | Inr os \<Rightarrow>
                               (case initiateRefund e ord' (st1\<lparr>db := (db st1)\<lparr>orders := os\<rparr>\<rparr>) of
                                  (Inl err, st2) \<Rightarrow> (Inl err, st2)
                                | (Inr _, st2) \<Rightarrow>
                                    (Inr (Some (Response 200 ''Delivery failed, refund initiated'')),
                                     st2)))))
          else (Inr None, st))"

text \<open>
  The refund handler looks the order up by the refund's payment id, in the order's own
  field or in the stored gateway payload. Its \<open>save\<close> changes status and paymentRaw only,
  which always pass the schema.
\<close>

definition refundQuery :: "string \<Rightarrow> order \<Rightarrow> bool" where
  "refundQuery payId x \<longleftrightarrow>
     paymentId x = Some payId
     \<or> (case paymentRaw x of None \<Rightarrow> False
         | Some r \<Rightarrow> raw_razorpayPaymentId r = Some payId \<or> raw_payload_id r = Some payId)"

definition handleRefundEvent ::
  "env \<Rightarrow> refund_entity \<Rightarrow> server \<Rightarrow> (error + response option) \<times> server" where
  "handleRefundEvent e refund st =
     (case findOne (refundQuery (refund_payment_id refund)) (orders (db st)) of
        None \<Rightarrow> (Inr (Some (Response 200 ''Order not found'')), st)
      | Some ord \<Rightarrow>
          if status ord = REFUNDED then (Inr (Some (Response 200 ''Already refunded'')), st)
          else if status ord \<noteq> PAID then (Inr (Some (Response 200 ''Refund ignored'')), st)
          else
            (Inr (Some (Response 200 ''Refund completed (status updated)'')),
             st\<lparr>db := (db st)\<lparr>orders :=
                   save_order (ord\<lparr>status := REFUNDED,
                                   paymentRaw := Some ((rawOf ord)\<lparr>raw_refundCompletedAt := Some (now e),
                                                                     raw_refund := Some (refund_id refund)\<rparr>)\<rparr>)
                     (orders (db st))\<rparr>\<rparr>))"

text \<open>
  \<open>razorpayWebhookHandler\<close>: the request carries the signature header, the raw body and
  what \<open>JSON.parse\<close> makes of the body (\<open>None\<close> when it throws). The two event handlers
  are returned without \<open>await\<close>, so an exception in them leaves this handler as well.
\<close>

record webhook_request =
  req_signature :: "string option"
  req_body :: string
  req_parsed :: "webhook_payload option"

definition razorpayWebhookHandler ::
  "env \<Rightarrow> webhook_request \<Rightarrow> server \<Rightarrow> (error + response option) \<times> server" where
  "razorpayWebhookHandler e req st =
     (if \<not> truthy (webhookSecret e) then (Inr (Some (Response 500 ''Webhook not configured'')), st)
      else if \<not> truthy (req_signature req) then (Inr (Some (Response 400 ''Signature missing'')), st)
      else if Some (webhookHmac e (req_body req)) \<noteq> req_signature req
      then (Inr (Some (Response 400 ''Invalid signature'')), st)
      else
        (case req_parsed req of
           None \<Rightarrow> (Inr (Some (Response 500 ''Internal error'')), st)
         | Some payload \<Rightarrow>
             if wh_event payload = ''payment.captured'' \<or> wh_event payload = ''payment.failed''
             then (case wh_payment payload of
                     None \<Rightarrow> (Inr (Some (Response 200 ''Invalid payment payload'')), st)
                   | Some payment \<Rightarrow> handlePaymentEvent e (wh_event payload) payment st)
             else if wh_event payload = ''refund.processed''
             then (case wh_refund payload of
                     None \<Rightarrow> (Inr (Some (Response 200 ''Invalid refund payload'')), st)
                   | Some refund \<Rightarrow> handleRefundEvent e refund st)
             else (Inr (Some (Response 200 ''Event ignored'')), st)))"

section \<open>Client verification and admin refund (order controller)\<close>

record verify_body =
  v_orderId :: string
  v_razorpayOrderId :: string
  v_razorpayPaymentId :: string
  v_razorpaySignature :: string

definition is_hex24 :: "string \<Rightarrow> bool" where
  "is_hex24 s \<longleftrightarrow> length s = 24 \<and> (\<forall>c \<in> set s. c \<in> set ''0123456789abcdefABCDEF'')"

definition verifySchema_ok :: "verify_body \<Rightarrow> bool" where
  "verifySchema_ok b \<longleftrightarrow>
     is_hex24 (v_orderId b) \<and> v_razorpayOrderId b \<noteq> [] \<and> v_razorpayPaymentId b \<noteq> []
     \<and> v_razorpaySignature b \<noteq> []"

definition clientRaw :: "verify_body \<Rightarrow> payment_raw" where
  "clientRaw b =
     emptyRaw\<lparr>raw_razorpayOrderId := Some (v_razorpayOrderId b),
              raw_razorpayPaymentId := Some (v_razorpayPaymentId b),
              raw_razorpaySignature := Some (v_razorpaySignature b),
              raw_verifiedBy := Some ''client-verify-endpoint''\<rparr>"

text \<open>
  \<open>verifyOrder\<close>: the caller is \<open>req.user?.id\<close>; \<open>Inl\<close> is \<open>next(err)\<close>. The confirmation
  email is sent in the background and touches nothing modelled here.
\<close>

definition verifyOrder ::
  "env \<Rightarrow> object_id option \<Rightarrow> verify_body \<Rightarrow> server \<Rightarrow> (error + response) \<times> server" where
  "verifyOrder e authUserId b st =
     (if \<not> keySecretSet e then (Inr (Response 500 ''Payment verification unavailable''), st)
      else if \<not> verifySchema_ok b then (Inr (Response 400 ''Validation failed''), st)
      else
        (case (case authUserId of None \<Rightarrow> None
               | Some a \<Rightarrow> findOne (\<lambda>x. uid x = a) (users (db st))) of
           None \<Rightarrow> (Inr (Response 401 ''Unauthorized''), st)
         | Some u \<Rightarrow>
             if isDeleted u then (Inr (Response 401 ''Unauthorized''), st)
             else
               (case findOne (\<lambda>x. oid x = v_orderId b) (orders (db st)) of
                  None \<Rightarrow> (Inr (Response 404 ''Order not found''), st)
                | Some ord \<Rightarrow>
                    if status ord = PAID
                    then (if paymentId ord = Some (v_razorpayPaymentId b)
                          then (Inr (JsonSuccess (Some ''Order already verified via webhook'')), st)
                          else (Inr (Response 400 ''Order already paid with a different payment ID''), st))
                    else if status ord \<noteq> PENDING
                    then (Inr (Response 400 (''Order cannot be paid (status: ''
                                              @ status_name (status ord) @ '')'')), st)
                    else if user ord \<noteq> uid u then (Inr (Response 403 ''Not your order''), st)
                    else if paymentOrderId ord \<noteq> Some (v_razorpayOrderId b)
                    then (Inr (Response 400 ''Order ID mismatch''), st)
                    else if hmacHex e (v_razorpayOrderId b @ ''|'' @ v_razorpayPaymentId b)
                              \<noteq> v_razorpaySignature b
                    then (Inr (Response 400 ''Invalid payment signature''), st)
                    else
                      (case markOrderPaidAndGrantAccess e (v_orderId b) (v_razorpayPaymentId b)
                              (v_razorpaySignature b) (clientRaw b) st of
                         (Inl err, st1) \<Rightarrow> (Inl err, st1)
                       | (Inr _, st1) \<Rightarrow> (Inr (JsonSuccess None), st1)))))"

definition revokeOrderAccess :: "env \<Rightarrow> order \<Rightarrow> user_doc list \<Rightarrow> user_doc list" where
  "revokeOrderAccess e ord us =
     (if truthy (membershipPlanKey ord)
      then updateOne (\<lambda>x. uid x = user ord)
             (\<lambda>u. u\<lparr>membership := (membership u)\<lparr>mstatus := M_REFUNDED, expiresAt := Some (now e)\<rparr>\<rparr>) us
      else foldl (\<lambda>acc item.
                    updateOne (\<lambda>x. uid x = user ord)
                      (\<lambda>u. u\<lparr>purchasedProducts :=
                               filter (\<lambda>pp. pp_product pp \<noteq> product item) (purchasedProducts u)\<rparr>) acc)
             us (items ord))"

definition refundOrder :: "env \<Rightarrow> object_id \<Rightarrow> server \<Rightarrow> (error + response) \<times> server" where
  "refundOrder e i st =
     (if \<not> isValidObjectId e i then (Inr (Response 400 ''Invalid order id''), st)
      else
        (case findOne (\<lambda>x. oid x = i) (orders (db st)) of
           None \<Rightarrow> (Inr (Response 404 ''Order not found''), st)
         | Some ord \<Rightarrow>
             if status ord \<noteq> PAID
             then (Inr (Response 400 (''Refund not allowed when order status is ''
                                       @ status_name (status ord))), st)
             else if \<not> truthy (paymentId ord) then (Inr (Response 400 ''Payment ID missing''), st)
             else
               (case initiateRefund e ord
                       (st\<lparr>db := (db st)\<lparr>users := revokeOrderAccess e ord (users (db st))\<rparr>\<rparr>) of
                  (Inl err, st1) \<Rightarrow> (Inl err, st1)
                | (Inr _, st1) \<Rightarrow> (Inr (Response 200 ''Refund initiated, access revoked''), st1))))"

section \<open>Idle-order reaper\<close>

definition reaperFilter :: "env \<Rightarrow> order \<Rightarrow> bool" where
  "reaperFilter e x \<longleftrightarrow>
     status x = PENDING \<and> createdAt x \<le> now e - 2 * 60 * 1000 \<and> paymentId x = None"

definition autoCancelPendingOrders :: "env \<Rightarrow> server \<Rightarrow> server" where
  "autoCancelPendingOrders e st =
     (if \<not> dbConnected e then st
      else if isRunning st then st
      else
        (let st1 = st\<lparr>isRunning := True\<rparr>;
             st2 = st1\<lparr>db := (db st1)\<lparr>orders :=
                      updateMany (reaperFilter e)
                        (\<lambda>x. x\<lparr>status := CANCELLED, cancelReason := Some PAYMENT_TIMEOUT,
                                completedAt := Some (now e)\<rparr>)
                        (orders (db st1))\<rparr>\<rparr>
         in st2\<lparr>isRunning := False\<rparr>))"

section \<open>Pricing and order assembly (order service)\<close>

text \<open>
  \<open>Number(x.toFixed(2))\<close> on the exact value: the nearest multiple of 0.01, a tie going
  to the larger magnitude.
\<close>

definition toFixed2 :: "rat \<Rightarrow> rat" where
  "toFixed2 x =
     (if x < 0 then - (of_int \<lfloor>(- x) * 100 + 1 / 2\<rfloor> / 100)
      else of_int \<lfloor>x * 100 + 1 / 2\<rfloor> / 100)"





















section \<open>Vocabulary of the properties\<close>

text \<open>Looking a document up by its id, as \<open>findById\<close> does.\<close>

definition order_by_id :: "object_id \<Rightarrow> server \<Rightarrow> order option" where
  "order_by_id i st = findOne (\<lambda>x. oid x = i) (orders (db st))"

definition user_by_id :: "object_id \<Rightarrow> server \<Rightarrow> user_doc option" where
  "user_by_id w st = findOne (\<lambda>x. uid x = w) (users (db st))"

text \<open>
  A sequence of settlement calls on one order, each call with its own clock, payment id,
  signature and payload: \<open>settle_calls\<close> lists the states before, between and after the
  calls. A step is the transition when it takes the order from PENDING to PAID.
  \<open>owned_count\<close> counts the entries for a product in a user's purchasedProducts,
  \<open>ordered_count\<close> the items of an order that are that product.
\<close>

type_synonym settle_call = "env \<times> string \<times> string \<times> payment_raw"

definition settle_call :: "object_id \<Rightarrow> settle_call \<Rightarrow> server \<Rightarrow> (error + order) \<times> server" where
  "settle_call i c st = (case c of (e, payId, sig, raw) \<Rightarrow> markOrderPaidAndGrantAccess e i payId sig raw st)"












definition limitError :: "error + order" where
  "limitError = Inl (Error ''Promo code usage limit exceeded'')"



text \<open>
  The operations that write order statuses after creation, and the status machine they
  implement, taken operation by operation (the rollback from REFUND_INITIATED to PAID
  happens inside the refund call that set REFUND_INITIATED). \<open>statuses_follow R\<close> says
  that the same orders are stored, in the same places, each with a status related by
  \<open>R\<close> to its status before.
\<close>

datatype operation =
  Settle env object_id string string payment_raw
  | Verify env "object_id option" verify_body
  | Webhook env webhook_request
  | AdminRefund env object_id
  | Reap env

fun apply_op :: "operation \<Rightarrow> server \<Rightarrow> server" where
  "apply_op (Settle e i payId sig raw) st = snd (markOrderPaidAndGrantAccess e i payId sig raw st)"
| "apply_op (Verify e a b) st = snd (verifyOrder e a b st)"
| "apply_op (Webhook e req) st = snd (razorpayWebhookHandler e req st)"
| "apply_op (AdminRefund e i) st = snd (refundOrder e i st)"
| "apply_op (Reap e) st = autoCancelPendingOrders e st"

definition implemented_step :: "order_status \<Rightarrow> order_status \<Rightarrow> bool" where
  "implemented_step a b \<longleftrightarrow>
     a = b
     \<or> (a = PENDING \<and> (b = PAID \<or> b = FAILED \<or> b = CANCELLED))
     \<or> (a = PAID \<and> (b = REFUND_INITIATED \<or> b = REFUNDED))"

definition statuses_follow ::
  "(order_status \<Rightarrow> order_status \<Rightarrow> bool) \<Rightarrow> server \<Rightarrow> server \<Rightarrow> bool" where
  "statuses_follow R st st' \<longleftrightarrow>
     list_all2 (\<lambda>a b. oid a = oid b \<and> R (status a) (status b)) (orders (db st)) (orders (db st'))"

abbreviation follows :: "order list \<Rightarrow> order list \<Rightarrow> bool" where
  "follows \<equiv> list_all2 (\<lambda>a b. oid a = oid b \<and> implemented_step (status a) (status b))"

text \<open>An amount that is a whole number of hundredths.\<close>

definition cents :: "rat \<Rightarrow> bool" where
  "cents x \<longleftrightarrow> (\<exists>n::int. x = of_int n / 100)"

section \<open>Example data\<close>

text \<open>
  One user, one PENDING product order of 100.00 created at time 0, the clock at 1000.
  In the examples every string is a valid object id, a month has 30 days, the HMAC of a
  text is the text behind \<open>mac:\<close>, and the gateway grants every refund.
\<close>

definition ex_env :: env where
  "ex_env = \<lparr>now = 1000, setMonthPlus = (\<lambda>d k. d + k * 2592000000),
              isValidObjectId = (\<lambda>s. True), userSaveOk = True,
              refundApi = (\<lambda>p a. Inr ''rfnd_1''), webhookSecret = Some ''whsec'',
              webhookHmac = (\<lambda>s. ''mac:'' @ s), keySecretSet = True,
              hmacHex = (\<lambda>s. ''mac:'' @ s), trimUpper = (\<lambda>s. s), dbConnected = True\<rparr>"

definition ex_raw :: payment_raw where
  "ex_raw = \<lparr>raw_source = Some ''razorpay-webhook'', raw_event = Some ''payment.captured'',
              raw_payload_id = Some ''pay_1'', raw_razorpayOrderId = None,
              raw_razorpayPaymentId = None, raw_razorpaySignature = None, raw_verifiedBy = None,
              raw_refundInitiatedAt = None, raw_refundRequest = None,
              raw_refundCompletedAt = None, raw_refund = None, raw_refundErrors = []\<rparr>"

definition ex_item :: order_item where
  "ex_item = \<lparr>product = ''prodA'', titleSnapshot = ''A'', priceSnapshot = 100,
               mrpSnapshot = 100, currencySnapshot = ''INR'', discountPercentSnapshot = 0\<rparr>"

definition ex_order :: order where
  "ex_order = \<lparr>oid = ''o1'', user = ''u1'', items = [ex_item], membershipPlanKey = None,
                membershipMonths = 1, currency = ''INR'', subtotal = 100, tax = 0,
                convenienceFee = 0, total = 100, status = PENDING, cancelReason = None,
                paymentOrderId = Some ''order_1'', paymentId = None, paymentSignature = None,
                paymentRaw = None, promoCode = None, promoDiscount = 0, completedAt = None,
                createdAt = 0\<rparr>"

definition ex_user :: user_doc where
  "ex_user = \<lparr>uid = ''u1'', purchasedProducts = [],
               membership = \<lparr>planKey = None, startedAt = None, expiresAt = None, mstatus = M_NONE\<rparr>,
               membershipUsage = \<lparr>periodStart = None, downloadsUsed = 0, remixRequestsUsed = 0\<rparr>,
               isBanned = False, isDeleted = False\<rparr>"

definition ex_server :: server where
  "ex_server = \<lparr>db = \<lparr>orders = [ex_order], users = [ex_user], promos = [], products = [], plans = []\<rparr>,
                 PROMO_CACHE = [], isRunning = False, refundCalls = []\<rparr>"

definition ex_promo :: promo where
  "ex_promo = \<lparr>code = ''SAVE'', isActive = True, promoExpiresAt = None, minOrderAmount = 0,
                discountType = ''FIXED'', discountValue = 10, maxDiscount = 0,
                usageLimit = Some 1, usedCount = 1\<rparr>"

definition ex_banned :: server where
  "ex_banned = ex_server\<lparr>db := (db ex_server)\<lparr>users := [ex_user\<lparr>isBanned := True\<rparr>]\<rparr>\<rparr>"

definition ex_cancelled :: server where
  "ex_cancelled = ex_server\<lparr>db := (db ex_server)\<lparr>orders := [ex_order\<lparr>status := CANCELLED\<rparr>]\<rparr>\<rparr>"

definition ex_promo_used_up :: server where
  "ex_promo_used_up =
     ex_server\<lparr>db := (db ex_server)\<lparr>orders := [ex_order\<lparr>promoCode := Some ''SAVE''\<rparr>],
                                     promos := [ex_promo]\<rparr>\<rparr>"

definition ex_member :: server where
  "ex_member =
     ex_server\<lparr>db := (db ex_server)
       \<lparr>orders := [ex_order\<lparr>items := [], membershipPlanKey := Some ''GOLD'', membershipMonths := 2\<rparr>],
        users := [ex_user\<lparr>membership := \<lparr>planKey = Some ''GOLD'', startedAt = Some 10,
                                           expiresAt = Some 5000, mstatus = M_ACTIVE\<rparr>,
                          membershipUsage := \<lparr>periodStart = Some 10, downloadsUsed = 3,
                                               remixRequestsUsed = 1\<rparr>\<rparr>]\<rparr>\<rparr>"

definition ex_sweep :: server where
  "ex_sweep =
     ex_server\<lparr>db := (db ex_server)
       \<lparr>orders := [ex_order,
                   ex_order\<lparr>oid := ''o2'', paymentId := Some ''pay_x''\<rparr>,
                   ex_order\<lparr>oid := ''o3'', createdAt := 150000\<rparr>,
                   ex_order\<lparr>oid := ''o4'', status := PAID, paymentId := Some ''pay_y''\<rparr>]\<rparr>\<rparr>"

definition ex_captured :: webhook_request where
  "ex_captured =
     \<lparr>req_signature = Some ''mac:{payment.captured order_1 pay_1}'',
      req_body = ''{payment.captured order_1 pay_1}'',
      req_parsed = Some \<lparr>wh_event = ''payment.captured'',
                         wh_payment = Some \<lparr>pay_order_id = ''order_1'', pay_id = ''pay_1''\<rparr>,
                         wh_refund = None\<rparr>\<rparr>"


definition ex_hex_id :: string where
  "ex_hex_id = ''64b7f0c2a1d3e4f5a6b7c8d9''"

definition ex_verify_body :: verify_body where
  "ex_verify_body = \<lparr>v_orderId = ex_hex_id, v_razorpayOrderId = ''order_1'',
                      v_razorpayPaymentId = ''pay_1'', v_razorpaySignature = ''forged''\<rparr>"

definition ex_two_users :: server where
  "ex_two_users =
     ex_server\<lparr>db := (db ex_server)
       \<lparr>orders := [ex_order\<lparr>oid := ex_hex_id, status := PAID, paymentId := Some ''pay_1''\<rparr>],
        users := [ex_user, ex_user\<lparr>uid := ''u2''\<rparr>]\<rparr>\<rparr>"




section \<open>Facts about collections and about one settlement call\<close>

lemma find_updateOne_key:
  assumes "k y = j"
  shows "List.find (\<lambda>x. k x = i) (updateOne (\<lambda>x. k x = j) (\<lambda>_. y) xs) =
         (if i = j then map_option (\<lambda>_. y) (List.find (\<lambda>x. k x = j) xs)
          else List.find (\<lambda>x. k x = i) xs)"
  using assms by (induction xs) auto

lemma find_key: "List.find (\<lambda>x. k x = i) xs = Some y \<Longrightarrow> k y = i"
  by (induction xs) (auto split: if_splits)


lemma user_lookup_save:
  "findOne (\<lambda>x. uid x = w) (save_user u os) =
     (if w = uid u then map_option (\<lambda>_. u) (findOne (\<lambda>x. uid x = w) os)
      else findOne (\<lambda>x. uid x = w) os)"
  unfolding findOne_def save_user_def by (simp add: find_updateOne_key)

lemma updatePromoUsage_fields:
  "updatePromoUsage c (d, cache) = (r, d', cache') \<Longrightarrow>
     orders d' = orders d \<and> users d' = users d \<and> products d' = products d \<and> plans d' = plans d"
  by (auto simp: updatePromoUsage_def Let_def split: if_splits)

lemma promo_step_fields:
  "promo_step ord (d, cache) = (r, d', cache') \<Longrightarrow>
     orders d' = orders d \<and> users d' = users d \<and> products d' = products d \<and> plans d' = plans d"
  by (auto simp: promo_step_def dest: updatePromoUsage_fields split: if_splits)

lemma user_save_fields:
  "user_save e u d = (r, d') \<Longrightarrow>
     orders d' = orders d \<and> promos d' = promos d \<and> products d' = products d \<and> plans d' = plans d
     \<and> (users d' = users d \<or> (r = Inr () \<and> users d' = save_user u (users d)))"
  by (auto simp: user_save_def split: if_splits)

lemma grant_step_fields:
  "grant_step e ord d = (r, d') \<Longrightarrow>
     orders d' = orders d \<and> promos d' = promos d \<and> products d' = products d \<and> plans d' = plans d"
  by (auto simp: grant_step_def activateMembership_def grantProductAccess_def
      dest: user_save_fields split: option.splits if_splits)

lemma settle_pending_orders:
  assumes "settle_pending e ord (d, cache) = (r, d', cache')"
  shows "orders d' = save_order ord (orders d) \<and> (\<forall>x. r = Inr x \<longrightarrow> x = ord)"
proof -
  obtain r1 d2 c2 where ps: "promo_step ord (d\<lparr>orders := save_order ord (orders d)\<rparr>, cache) = (r1, d2, c2)"
    by (metis prod_cases3)
  from promo_step_fields[OF ps] have o2: "orders d2 = save_order ord (orders d)" by simp
  obtain r2 d3 where gs: "grant_step e ord d2 = (r2, d3)" by fastforce
  from grant_step_fields[OF gs] have o3: "orders d3 = orders d2" by simp
  show ?thesis
  proof (cases r1)
    case (Inl err)
    with assms ps o2 show ?thesis by (auto simp: settle_pending_def)
  next
    case (Inr u)
    with assms ps gs o2 o3 show ?thesis
      by (cases r2) (auto simp: settle_pending_def)
  qed
qed

lemma mark_paid_simps [simp]:
  "oid (mark_paid e p s r ord) = oid ord" "status (mark_paid e p s r ord) = PAID"
  "items (mark_paid e p s r ord) = items ord" "user (mark_paid e p s r ord) = user ord"
  "promoCode (mark_paid e p s r ord) = promoCode ord"
  "membershipPlanKey (mark_paid e p s r ord) = membershipPlanKey ord"
  "membershipMonths (mark_paid e p s r ord) = membershipMonths ord"
  by (simp_all add: mark_paid_def)

lemma mark_unfold_pending:
  assumes "isValidObjectId e i" "findOne (\<lambda>x. oid x = i) (orders (db st)) = Some ord0"
    "status ord0 = PENDING"
    "settle_pending e (mark_paid e payId sig raw ord0) (db st, PROMO_CACHE st) = (r1, d1, c1)"
  shows "markOrderPaidAndGrantAccess e i payId sig raw st =
           (case r1 of Inr x \<Rightarrow> (Inr x, st\<lparr>db := d1, PROMO_CACHE := c1\<rparr>)
            | Inl err \<Rightarrow> (Inl err, st\<lparr>PROMO_CACHE := c1\<rparr>))"
  using assms by (simp add: markOrderPaidAndGrantAccess_def settle_txn_def split: sum.splits)

lemma mark_unfold_other:
  assumes "isValidObjectId e i" "findOne (\<lambda>x. oid x = i) (orders (db st)) = Some ord0"
    "status ord0 \<noteq> PENDING"
  shows "markOrderPaidAndGrantAccess e i payId sig raw st =
           (if status ord0 = PAID then (Inr ord0, st)
            else (Inl (Error (''Cannot process order with status: '' @ status_name (status ord0))), st))"
  using assms by (simp add: markOrderPaidAndGrantAccess_def settle_txn_def)

lemma mark_unfold_none:
  assumes "isValidObjectId e i" "findOne (\<lambda>x. oid x = i) (orders (db st)) = None"
  shows "markOrderPaidAndGrantAccess e i payId sig raw st = (Inl (Error ''Order not found''), st)"
  using assms by (simp add: markOrderPaidAndGrantAccess_def settle_txn_def)

lemma mark_unfold_invalid:
  assumes "\<not> isValidObjectId e i"
  shows "markOrderPaidAndGrantAccess e i payId sig raw st = (Inl (Error ''Invalid order ID''), st)"
  using assms by (simp add: markOrderPaidAndGrantAccess_def)














lemma activateMembership_user_keeps [simp]:
  "uid (activateMembership_user e ord u) = uid u"
  "purchasedProducts (activateMembership_user e ord u) = purchasedProducts u"
  "isBanned (activateMembership_user e ord u) = isBanned u"
  "isDeleted (activateMembership_user e ord u) = isDeleted u"
  by (simp_all add: activateMembership_user_def Let_def)


lemma newPurchases_mark_paid [simp]:
  "newPurchases e (mark_paid e' p s r ord) u = newPurchases e ord u"
  by (simp add: newPurchases_def)







lemmas settle_defs = markOrderPaidAndGrantAccess_def settle_txn_def settle_pending_def promo_step_def
  grant_step_def grantProductAccess_def activateMembership_def activateMembership_user_def
  newPurchases_def user_save_def save_user_def save_order_def mark_paid_def findOne_def
  updatePromoUsage_def modifiedCount_def promoGuard_def settle_call_def

lemmas ex_defs = ex_env_def ex_raw_def ex_item_def ex_order_def ex_user_def ex_server_def

lemma mark_abort:
  "fst (markOrderPaidAndGrantAccess e i payId sig raw st) = Inl err
   \<Longrightarrow> db (snd (markOrderPaidAndGrantAccess e i payId sig raw st)) = db st"
  by (auto simp: markOrderPaidAndGrantAccess_def split: if_splits prod.splits sum.splits)

lemma mark_pending_fst:
  assumes "isValidObjectId e i" "findOne (\<lambda>x. oid x = i) (orders (db st)) = Some ord0"
    "status ord0 = PENDING"
  shows "fst (markOrderPaidAndGrantAccess e i payId sig raw st) =
         fst (settle_pending e (mark_paid e payId sig raw ord0) (db st, PROMO_CACHE st))"
proof -
  obtain r1 d1 c1 where sp: "settle_pending e (mark_paid e payId sig raw ord0) (db st, PROMO_CACHE st) = (r1, d1, c1)"
    by (metis prod_cases3)
  show ?thesis
    by (cases r1) (simp_all add: mark_unfold_pending[OF assms sp] sp)
qed

lemma promo_step_fail:
  assumes "truthy (promoCode ord)" "findOne (promoGuard (the (promoCode ord))) (promos d) = None"
  shows "fst (promo_step ord (d, cache)) = Inl (Error ''Promo code usage limit exceeded'')"
  using assms by (simp add: promo_step_def updatePromoUsage_def modifiedCount_def Let_def)

lemma promo_step_ok:
  assumes "\<not> truthy (promoCode ord) \<or> findOne (promoGuard (the (promoCode ord))) (promos d) \<noteq> None"
  shows "\<exists>d2 c2. promo_step ord (d, cache) = (Inr (), d2, c2) \<and> users d2 = users d
            \<and> orders d2 = orders d"
  using assms by (auto simp: promo_step_def updatePromoUsage_def modifiedCount_def Let_def)

lemma settle_pending_promo_fail:
  assumes "truthy (promoCode ord)" "findOne (promoGuard (the (promoCode ord))) (promos d) = None"
  shows "fst (settle_pending e ord (d, cache)) = Inl (Error ''Promo code usage limit exceeded'')"
proof -
  let ?d1 = "d\<lparr>orders := save_order ord (orders d)\<rparr>"
  from assms have "fst (promo_step ord (?d1, cache)) = Inl (Error ''Promo code usage limit exceeded'')"
    by (simp add: promo_step_fail)
  then show ?thesis
    by (cases "promo_step ord (?d1, cache)") (simp add: settle_pending_def)
qed

lemma settle_pending_grant:
  assumes "\<not> truthy (promoCode ord) \<or> findOne (promoGuard (the (promoCode ord))) (promos d) \<noteq> None"
  shows "\<exists>d2. users d2 = users d \<and>
           fst (settle_pending e ord (d, cache)) =
             (case fst (grant_step e ord d2) of Inl err \<Rightarrow> Inl err | Inr _ \<Rightarrow> Inr ord)"
proof -
  let ?d1 = "d\<lparr>orders := save_order ord (orders d)\<rparr>"
  from assms have "\<not> truthy (promoCode ord) \<or> findOne (promoGuard (the (promoCode ord))) (promos ?d1) \<noteq> None"
    by simp
  from promo_step_ok[OF this, of cache] obtain d2 c2 where
    ps: "promo_step ord (?d1, cache) = (Inr (), d2, c2)" and u: "users d2 = users d" by auto
  have "fst (settle_pending e ord (d, cache)) =
             (case fst (grant_step e ord d2) of Inl err \<Rightarrow> Inl err | Inr _ \<Rightarrow> Inr ord)"
    by (cases "grant_step e ord d2") (auto simp: settle_pending_def ps split: sum.splits)
  with u show ?thesis by blast
qed

lemma grant_step_invalid_user:
  assumes "case findOne (\<lambda>x. uid x = user ord) (users d) of None \<Rightarrow> True
           | Some u \<Rightarrow> isDeleted u \<or> isBanned u"
  shows "fst (grant_step e ord d) = Inl (Error ''Invalid user state'')"
  using assms by (auto simp: grant_step_def split: option.splits)

lemma grant_step_save_fails:
  assumes "findOne (\<lambda>x. uid x = user ord) (users d) = Some u" "\<not> isDeleted u" "\<not> isBanned u"
    "\<not> userSaveOk e" "truthy (membershipPlanKey ord) \<or> newPurchases e ord u \<noteq> []"
  shows "fst (grant_step e ord d) = Inl (Error ''user save failed'')"
  using assms
  by (auto simp: grant_step_def activateMembership_def grantProductAccess_def user_save_def
      newPurchases_def)









section \<open>Settlement is idempotent\<close>




section \<open>Settlement is atomic\<close>

lemma status_other_throws:
  assumes "isValidObjectId e i" "order_by_id i st = Some ord" "status ord \<noteq> PENDING"
    "status ord \<noteq> PAID"
  shows "fst (markOrderPaidAndGrantAccess e i payId sig raw st) =
           Inl (Error (''Cannot process order with status: '' @ status_name (status ord)))"
  using assms by (simp add: mark_unfold_other order_by_id_def)

lemma promo_guard_throws:
  assumes "isValidObjectId e i" "order_by_id i st = Some ord" "status ord = PENDING"
    "truthy (promoCode ord)" "findOne (promoGuard (the (promoCode ord))) (promos (db st)) = None"
  shows "fst (markOrderPaidAndGrantAccess e i payId sig raw st) =
           Inl (Error ''Promo code usage limit exceeded'')"
proof -
  from assms(2) have f: "findOne (\<lambda>x. oid x = i) (orders (db st)) = Some ord"
    by (simp add: order_by_id_def)
  show ?thesis
    unfolding mark_pending_fst[OF assms(1) f assms(3)]
    using assms(4,5) by (simp add: settle_pending_promo_fail)
qed

lemma user_state_throws:
  assumes "isValidObjectId e i" "order_by_id i st = Some ord" "status ord = PENDING"
    "\<not> truthy (promoCode ord) \<or> findOne (promoGuard (the (promoCode ord))) (promos (db st)) \<noteq> None"
    "case user_by_id (user ord) st of None \<Rightarrow> True | Some u \<Rightarrow> isDeleted u \<or> isBanned u"
  shows "fst (markOrderPaidAndGrantAccess e i payId sig raw st) = Inl (Error ''Invalid user state'')"
proof -
  let ?ord = "mark_paid e payId sig raw ord"
  from assms(2) have f: "findOne (\<lambda>x. oid x = i) (orders (db st)) = Some ord"
    by (simp add: order_by_id_def)
  from assms(4) have "\<not> truthy (promoCode ?ord) \<or>
      findOne (promoGuard (the (promoCode ?ord))) (promos (db st)) \<noteq> None" by simp
  from settle_pending_grant[OF this, of e "PROMO_CACHE st"] obtain d2 where
    u: "users d2 = users (db st)" and
    r: "fst (settle_pending e ?ord (db st, PROMO_CACHE st)) =
          (case fst (grant_step e ?ord d2) of Inl err \<Rightarrow> Inl err | Inr _ \<Rightarrow> Inr ?ord)" by blast
  from assms(5) u have "case findOne (\<lambda>x. uid x = user ?ord) (users d2) of None \<Rightarrow> True
           | Some u \<Rightarrow> isDeleted u \<or> isBanned u" by (simp add: user_by_id_def)
  from grant_step_invalid_user[OF this, of e] r show ?thesis
    by (simp add: mark_pending_fst[OF assms(1) f assms(3)])
qed

lemma user_write_throws:
  assumes "isValidObjectId e i" "order_by_id i st = Some ord" "status ord = PENDING"
    "\<not> truthy (promoCode ord) \<or> findOne (promoGuard (the (promoCode ord))) (promos (db st)) \<noteq> None"
    "user_by_id (user ord) st = Some u" "\<not> isDeleted u" "\<not> isBanned u"
    "truthy (membershipPlanKey ord) \<or> newPurchases e ord u \<noteq> []" "\<not> userSaveOk e"
  shows "fst (markOrderPaidAndGrantAccess e i payId sig raw st) = Inl (Error ''user save failed'')"
proof -
  let ?ord = "mark_paid e payId sig raw ord"
  from assms(2) have f: "findOne (\<lambda>x. oid x = i) (orders (db st)) = Some ord"
    by (simp add: order_by_id_def)
  from assms(4) have "\<not> truthy (promoCode ?ord) \<or>
      findOne (promoGuard (the (promoCode ?ord))) (promos (db st)) \<noteq> None" by simp
  from settle_pending_grant[OF this, of e "PROMO_CACHE st"] obtain d2 where
    u: "users d2 = users (db st)" and
    r: "fst (settle_pending e ?ord (db st, PROMO_CACHE st)) =
          (case fst (grant_step e ?ord d2) of Inl err \<Rightarrow> Inl err | Inr _ \<Rightarrow> Inr ?ord)" by blast
  from assms(5) u have fu: "findOne (\<lambda>x. uid x = user ?ord) (users d2) = Some u"
    by (simp add: user_by_id_def)
  from assms(8) have w: "truthy (membershipPlanKey ?ord) \<or> newPurchases e ?ord u \<noteq> []" by simp
  from grant_step_save_fails[OF fu assms(6,7,9) w] r show ?thesis
    by (simp add: mark_pending_fst[OF assms(1) f assms(3)])
qed

text \<open>
  C3. Whenever markOrderPaidAndGrantAccess throws, the store after the call is the store
  before it: orders (status and payment fields), promo codes (usedCount) and users
  (purchasedProducts, membership, usage counters) are unchanged, and the caller gets the
  error. For a loaded order each listed cause does throw: a status other than PENDING or
  PAID, a failed promo guard, a missing, deleted or banned user, and a failed user write.
\<close>

theorem settlement_atomic:
  "(\<forall>err. fst (markOrderPaidAndGrantAccess e i payId sig raw st) = Inl err \<longrightarrow>
       db (snd (markOrderPaidAndGrantAccess e i payId sig raw st)) = db st)
   \<and> (isValidObjectId e i \<and> order_by_id i st = Some ord \<longrightarrow>
        (status ord \<noteq> PENDING \<and> status ord \<noteq> PAID \<longrightarrow>
           fst (markOrderPaidAndGrantAccess e i payId sig raw st) =
             Inl (Error (''Cannot process order with status: '' @ status_name (status ord))))
      \<and> (status ord = PENDING \<and> truthy (promoCode ord) \<and>
           findOne (promoGuard (the (promoCode ord))) (promos (db st)) = None \<longrightarrow>
           fst (markOrderPaidAndGrantAccess e i payId sig raw st) =
             Inl (Error ''Promo code usage limit exceeded''))
      \<and> (status ord = PENDING \<and>
           (\<not> truthy (promoCode ord) \<or>
            findOne (promoGuard (the (promoCode ord))) (promos (db st)) \<noteq> None) \<and>
           (case user_by_id (user ord) st of None \<Rightarrow> True | Some u \<Rightarrow> isDeleted u \<or> isBanned u) \<longrightarrow>
           fst (markOrderPaidAndGrantAccess e i payId sig raw st) = Inl (Error ''Invalid user state''))
      \<and> (status ord = PENDING \<and>
           (\<not> truthy (promoCode ord) \<or>
            findOne (promoGuard (the (promoCode ord))) (promos (db st)) \<noteq> None) \<and>
           (case user_by_id (user ord) st of None \<Rightarrow> False
            | Some u \<Rightarrow> \<not> isDeleted u \<and> \<not> isBanned u \<and>
                (truthy (membershipPlanKey ord) \<or> newPurchases e ord u \<noteq> [])) \<and>
           \<not> userSaveOk e \<longrightarrow>
           fst (markOrderPaidAndGrantAccess e i payId sig raw st) = Inl (Error ''user save failed'')))"
proof (intro conjI impI allI)
  fix err
  assume "fst (markOrderPaidAndGrantAccess e i payId sig raw st) = Inl err"
  then show "db (snd (markOrderPaidAndGrantAccess e i payId sig raw st)) = db st"
    by (rule mark_abort)
next
  assume "isValidObjectId e i \<and> order_by_id i st = Some ord" "status ord \<noteq> PENDING \<and> status ord \<noteq> PAID"
  then show "fst (markOrderPaidAndGrantAccess e i payId sig raw st) =
             Inl (Error (''Cannot process order with status: '' @ status_name (status ord)))"
    by (simp add: status_other_throws)
next
  assume "isValidObjectId e i \<and> order_by_id i st = Some ord"
    "status ord = PENDING \<and> truthy (promoCode ord) \<and>
           findOne (promoGuard (the (promoCode ord))) (promos (db st)) = None"
  then show "fst (markOrderPaidAndGrantAccess e i payId sig raw st) =
             Inl (Error ''Promo code usage limit exceeded'')"
    by (simp add: promo_guard_throws)
next
  assume "isValidObjectId e i \<and> order_by_id i st = Some ord"
    "status ord = PENDING \<and>
           (\<not> truthy (promoCode ord) \<or>
            findOne (promoGuard (the (promoCode ord))) (promos (db st)) \<noteq> None) \<and>
           (case user_by_id (user ord) st of None \<Rightarrow> True | Some u \<Rightarrow> isDeleted u \<or> isBanned u)"
  then show "fst (markOrderPaidAndGrantAccess e i payId sig raw st) = Inl (Error ''Invalid user state'')"
    using user_state_throws[of e i st ord payId sig raw] by blast
next
  assume a: "isValidObjectId e i \<and> order_by_id i st = Some ord"
    and b: "status ord = PENDING \<and>
           (\<not> truthy (promoCode ord) \<or>
            findOne (promoGuard (the (promoCode ord))) (promos (db st)) \<noteq> None) \<and>
           (case user_by_id (user ord) st of None \<Rightarrow> False
            | Some u \<Rightarrow> \<not> isDeleted u \<and> \<not> isBanned u \<and>
                (truthy (membershipPlanKey ord) \<or> newPurchases e ord u \<noteq> [])) \<and>
           \<not> userSaveOk e"
  then obtain u where u: "user_by_id (user ord) st = Some u" "\<not> isDeleted u" "\<not> isBanned u"
    "truthy (membershipPlanKey ord) \<or> newPurchases e ord u \<noteq> []"
    by (cases "user_by_id (user ord) st") auto
  from a b u show "fst (markOrderPaidAndGrantAccess e i payId sig raw st) = Inl (Error ''user save failed'')"
    using user_write_throws[of e i st ord u payId sig raw] by blast
qed

text \<open>
  The theorem at work on the example order: its owner banned; the order already
  cancelled; its promo code used up; the user write failing. Each call throws and
  leaves the store as it was. In the first, the working copy of the transaction had the
  order PAID when the body threw, and the committed store still has it PENDING.
\<close>

theorem settlement_atomic_witness:
  "markOrderPaidAndGrantAccess ex_env ''o1'' ''pay_1'' ''sig'' ex_raw ex_banned
     = (Inl (Error ''Invalid user state''), ex_banned)
   \<and> map status (orders (fst (snd (settle_txn ex_env ''o1'' ''pay_1'' ''sig'' ex_raw
                                     (db ex_banned, PROMO_CACHE ex_banned))))) = [PAID]
   \<and> map status (orders (db ex_banned)) = [PENDING]
   \<and> markOrderPaidAndGrantAccess ex_env ''o1'' ''pay_1'' ''sig'' ex_raw ex_cancelled
     = (Inl (Error ''Cannot process order with status: CANCELLED''), ex_cancelled)
   \<and> markOrderPaidAndGrantAccess ex_env ''o1'' ''pay_1'' ''sig'' ex_raw ex_promo_used_up
     = (Inl (Error ''Promo code usage limit exceeded''), ex_promo_used_up)
   \<and> fst (markOrderPaidAndGrantAccess (ex_env\<lparr>userSaveOk := False\<rparr>) ''o1'' ''pay_1'' ''sig'' ex_raw
            ex_server) = Inl (Error ''user save failed'')
   \<and> db (snd (markOrderPaidAndGrantAccess (ex_env\<lparr>userSaveOk := False\<rparr>) ''o1'' ''pay_1'' ''sig''
                ex_raw ex_server)) = db ex_server"
proof -
  have v: "isValidObjectId ex_env ''o1''" "isValidObjectId (ex_env\<lparr>userSaveOk := False\<rparr>) ''o1''"
    by (simp_all add: ex_env_def)
  have b: "order_by_id ''o1'' ex_banned = Some ex_order" "status ex_order = PENDING"
    "\<not> truthy (promoCode ex_order)"
    "case user_by_id (user ex_order) ex_banned of None \<Rightarrow> True | Some u \<Rightarrow> isDeleted u \<or> isBanned u"
    by (simp_all add: ex_defs ex_banned_def order_by_id_def user_by_id_def findOne_def)
  from settlement_atomic[of ex_env "''o1''" "''pay_1''" "''sig''" ex_raw ex_banned ex_order] v b
  have b1: "fst (markOrderPaidAndGrantAccess ex_env ''o1'' ''pay_1'' ''sig'' ex_raw ex_banned)
              = Inl (Error ''Invalid user state'')"
    and b2: "db (snd (markOrderPaidAndGrantAccess ex_env ''o1'' ''pay_1'' ''sig'' ex_raw ex_banned))
              = db ex_banned"
    by simp_all
  have b3: "snd (markOrderPaidAndGrantAccess ex_env ''o1'' ''pay_1'' ''sig'' ex_raw ex_banned) = ex_banned"
    by (simp add: settle_defs ex_defs ex_banned_def Let_def)
  have w: "map status (orders (fst (snd (settle_txn ex_env ''o1'' ''pay_1'' ''sig'' ex_raw
                                     (db ex_banned, PROMO_CACHE ex_banned))))) = [PAID]"
    "map status (orders (db ex_banned)) = [PENDING]"
    by (simp_all add: settle_defs ex_defs ex_banned_def Let_def)
  have c: "order_by_id ''o1'' ex_cancelled = Some (ex_order\<lparr>status := CANCELLED\<rparr>)"
    by (simp add: ex_defs ex_cancelled_def order_by_id_def findOne_def)
  from settlement_atomic[of ex_env "''o1''" "''pay_1''" "''sig''" ex_raw ex_cancelled
      "ex_order\<lparr>status := CANCELLED\<rparr>"] v c
  have c1: "fst (markOrderPaidAndGrantAccess ex_env ''o1'' ''pay_1'' ''sig'' ex_raw ex_cancelled)
              = Inl (Error ''Cannot process order with status: CANCELLED'')"
    by simp
  have c3: "snd (markOrderPaidAndGrantAccess ex_env ''o1'' ''pay_1'' ''sig'' ex_raw ex_cancelled)
              = ex_cancelled"
    by (simp add: settle_defs ex_defs ex_cancelled_def Let_def)
  have p: "order_by_id ''o1'' ex_promo_used_up = Some (ex_order\<lparr>promoCode := Some ''SAVE''\<rparr>)"
    "findOne (promoGuard ''SAVE'') (promos (db ex_promo_used_up)) = None"
    by (simp_all add: ex_defs ex_promo_used_up_def ex_promo_def order_by_id_def findOne_def
        promoGuard_def)
  from settlement_atomic[of ex_env "''o1''" "''pay_1''" "''sig''" ex_raw ex_promo_used_up
      "ex_order\<lparr>promoCode := Some ''SAVE''\<rparr>"] v p
  have p1: "fst (markOrderPaidAndGrantAccess ex_env ''o1'' ''pay_1'' ''sig'' ex_raw ex_promo_used_up)
              = Inl (Error ''Promo code usage limit exceeded'')"
    by (simp add: ex_order_def)
  have p3: "snd (markOrderPaidAndGrantAccess ex_env ''o1'' ''pay_1'' ''sig'' ex_raw ex_promo_used_up)
              = ex_promo_used_up"
    by (simp add: settle_defs ex_defs ex_promo_used_up_def ex_promo_def Let_def)
  have s: "order_by_id ''o1'' ex_server = Some ex_order"
    "case user_by_id (user ex_order) ex_server of None \<Rightarrow> False
     | Some u \<Rightarrow> \<not> isDeleted u \<and> \<not> isBanned u \<and>
         (truthy (membershipPlanKey ex_order)
          \<or> newPurchases (ex_env\<lparr>userSaveOk := False\<rparr>) ex_order u \<noteq> [])"
    "\<not> userSaveOk (ex_env\<lparr>userSaveOk := False\<rparr>)"
    by (simp_all add: ex_defs order_by_id_def user_by_id_def findOne_def newPurchases_def)
  from settlement_atomic[of "ex_env\<lparr>userSaveOk := False\<rparr>" "''o1''" "''pay_1''" "''sig''" ex_raw
      ex_server ex_order] v s b(2,3)
  have s1: "fst (markOrderPaidAndGrantAccess (ex_env\<lparr>userSaveOk := False\<rparr>) ''o1'' ''pay_1'' ''sig''
                  ex_raw ex_server) = Inl (Error ''user save failed'')"
    and s2: "db (snd (markOrderPaidAndGrantAccess (ex_env\<lparr>userSaveOk := False\<rparr>) ''o1'' ''pay_1''
                  ''sig'' ex_raw ex_server)) = db ex_server"
    by simp_all
  from b1 b3 w c1 c3 p1 p3 s1 s2 show ?thesis
    by (metis prod.collapse)
qed


section \<open>The reaper\<close>

lemma reaper_orders:
  assumes "dbConnected e" "\<not> isRunning st"
  shows "orders (db (autoCancelPendingOrders e st)) =
           map (\<lambda>x. if reaperFilter e x
                     then x\<lparr>status := CANCELLED, cancelReason := Some PAYMENT_TIMEOUT,
                            completedAt := Some (now e)\<rparr>
                     else x) (orders (db st))"
  using assms by (simp add: autoCancelPendingOrders_def updateMany_def Let_def)

text \<open>
  C9. One sweep that runs (store connected, no sweep in progress) cancels, with reason
  PAYMENT_TIMEOUT, exactly the orders that are PENDING, were created at least two minutes
  ago and have no paymentId field; every order with a paymentId, or younger than two
  minutes, or not PENDING is the same document afterwards; users and promo codes are not
  touched.
\<close>

theorem reaper_sweep:
  "dbConnected e \<and> \<not> isRunning st \<longrightarrow>
     length (orders (db (autoCancelPendingOrders e st))) = length (orders (db st)) \<and>
     (\<forall>k < length (orders (db st)).
        (status (orders (db st) ! k) = PENDING \<and>
         createdAt (orders (db st) ! k) \<le> now e - 2 * 60 * 1000 \<and>
         paymentId (orders (db st) ! k) = None \<longrightarrow>
           orders (db (autoCancelPendingOrders e st)) ! k =
             (orders (db st) ! k)\<lparr>status := CANCELLED, cancelReason := Some PAYMENT_TIMEOUT,
                                    completedAt := Some (now e)\<rparr>) \<and>
        (paymentId (orders (db st) ! k) \<noteq> None \<or>
         createdAt (orders (db st) ! k) > now e - 2 * 60 * 1000 \<or>
         status (orders (db st) ! k) \<noteq> PENDING \<longrightarrow>
           orders (db (autoCancelPendingOrders e st)) ! k = orders (db st) ! k)) \<and>
     users (db (autoCancelPendingOrders e st)) = users (db st) \<and>
     promos (db (autoCancelPendingOrders e st)) = promos (db st)"
proof
  assume a: "dbConnected e \<and> \<not> isRunning st"
  then have o: "orders (db (autoCancelPendingOrders e st)) =
           map (\<lambda>x. if reaperFilter e x
                     then x\<lparr>status := CANCELLED, cancelReason := Some PAYMENT_TIMEOUT,
                            completedAt := Some (now e)\<rparr>
                     else x) (orders (db st))"
    by (simp add: reaper_orders)
  from a have r: "users (db (autoCancelPendingOrders e st)) = users (db st)"
    "promos (db (autoCancelPendingOrders e st)) = promos (db st)"
    by (simp_all add: autoCancelPendingOrders_def Let_def)
  show "length (orders (db (autoCancelPendingOrders e st))) = length (orders (db st)) \<and>
     (\<forall>k < length (orders (db st)).
        (status (orders (db st) ! k) = PENDING \<and>
         createdAt (orders (db st) ! k) \<le> now e - 2 * 60 * 1000 \<and>
         paymentId (orders (db st) ! k) = None \<longrightarrow>
           orders (db (autoCancelPendingOrders e st)) ! k =
             (orders (db st) ! k)\<lparr>status := CANCELLED, cancelReason := Some PAYMENT_TIMEOUT,
                                    completedAt := Some (now e)\<rparr>) \<and>
        (paymentId (orders (db st) ! k) \<noteq> None \<or>
         createdAt (orders (db st) ! k) > now e - 2 * 60 * 1000 \<or>
         status (orders (db st) ! k) \<noteq> PENDING \<longrightarrow>
           orders (db (autoCancelPendingOrders e st)) ! k = orders (db st) ! k)) \<and>
     users (db (autoCancelPendingOrders e st)) = users (db st) \<and>
     promos (db (autoCancelPendingOrders e st)) = promos (db st)"
    unfolding o using r by (auto simp: reaperFilter_def)
qed

text \<open>
  The theorem at work, 200 seconds after the example orders were created: the first is
  cancelled; the second has a paymentId, the third is 50 seconds old, the fourth is PAID,
  and all three stay as they are.
\<close>

theorem reaper_sweep_witness:
  "map (\<lambda>x. (status x, cancelReason x))
       (orders (db (autoCancelPendingOrders (ex_env\<lparr>now := 200000\<rparr>) ex_sweep)))
     = [(CANCELLED, Some PAYMENT_TIMEOUT), (PENDING, None), (PENDING, None), (PAID, None)]
   \<and> tl (orders (db (autoCancelPendingOrders (ex_env\<lparr>now := 200000\<rparr>) ex_sweep)))
       = tl (orders (db ex_sweep))"
proof -
  let ?e = "ex_env\<lparr>now := 200000\<rparr>"
  let ?os = "orders (db ex_sweep)"
  let ?os' = "orders (db (autoCancelPendingOrders ?e ex_sweep))"
  have h: "dbConnected ?e \<and> \<not> isRunning ex_sweep"
    by (simp add: ex_defs ex_sweep_def)
  have len: "length ?os = 4" by (simp add: ex_sweep_def ex_server_def)
  have k0: "status (?os ! 0) = PENDING \<and> createdAt (?os ! 0) \<le> now ?e - 2 * 60 * 1000
              \<and> paymentId (?os ! 0) = None"
    and k1: "paymentId (?os ! 1) \<noteq> None"
    and k2: "createdAt (?os ! 2) > now ?e - 2 * 60 * 1000"
    and k3: "status (?os ! 3) \<noteq> PENDING"
    by (simp_all add: ex_defs ex_sweep_def)
  from reaper_sweep[of ?e ex_sweep] h
  have len': "length ?os' = length ?os"
    and each: "\<And>k. k < length ?os \<Longrightarrow>
        (status (?os ! k) = PENDING \<and> createdAt (?os ! k) \<le> now ?e - 2 * 60 * 1000 \<and>
         paymentId (?os ! k) = None \<longrightarrow>
           ?os' ! k = (?os ! k)\<lparr>status := CANCELLED, cancelReason := Some PAYMENT_TIMEOUT,
                                 completedAt := Some (now ?e)\<rparr>) \<and>
        (paymentId (?os ! k) \<noteq> None \<or> createdAt (?os ! k) > now ?e - 2 * 60 * 1000 \<or>
         status (?os ! k) \<noteq> PENDING \<longrightarrow> ?os' ! k = ?os ! k)"
    by blast+
  from each[of 0] k0 len
  have r0: "?os' ! 0 = (?os ! 0)\<lparr>status := CANCELLED, cancelReason := Some PAYMENT_TIMEOUT,
                                  completedAt := Some (now ?e)\<rparr>" by simp
  from each[of 1] k1 len have r1: "?os' ! 1 = ?os ! 1" by simp
  from each[of 2] k2 len have r2: "?os' ! 2 = ?os ! 2" by simp
  from each[of 3] k3 len have r3: "?os' ! 3 = ?os ! 3" by simp
  from len len' have l4: "length ?os' = 4" by simp
  then obtain a b c d where abcd: "?os' = [a, b, c, d]"
    by (auto simp: length_Suc_conv numeral_eq_Suc)
  from r0 r1 r2 r3 show ?thesis
    unfolding abcd by (simp add: ex_defs ex_sweep_def)
qed

section \<open>Membership activation\<close>

lemma activateMembership_user_mark_paid [simp]:
  "activateMembership_user e (mark_paid e' p s r ord) u = activateMembership_user e ord u"
  by (simp add: activateMembership_user_def)

lemma grant_step_membership:
  assumes "truthy (membershipPlanKey ord)" "findOne (\<lambda>x. uid x = user ord) (users d) = Some u"
    "grant_step e ord d = (Inr x, d')"
  shows "users d' = save_user (activateMembership_user e ord u) (users d)"
  using assms
  by (auto simp: grant_step_def activateMembership_def user_save_def split: if_splits)

lemma settle_membership_user:
  assumes v: "isValidObjectId e i" and f: "order_by_id i st = Some ord" and pend: "status ord = PENDING"
    and mem: "truthy (membershipPlanKey ord)" and u: "user_by_id (user ord) st = Some u"
    and ok: "markOrderPaidAndGrantAccess e i payId sig raw st = (Inr x, st')"
  shows "user_by_id (user ord) st' = Some (activateMembership_user e ord u)"
proof -
  let ?ord = "mark_paid e payId sig raw ord"
  from f have f': "findOne (\<lambda>x. oid x = i) (orders (db st)) = Some ord" by (simp add: order_by_id_def)
  obtain r1 d1 c1 where sp: "settle_pending e ?ord (db st, PROMO_CACHE st) = (r1, d1, c1)"
    by (metis prod_cases3)
  from mark_unfold_pending[OF v f' pend sp] ok have r1: "r1 = Inr x" and st': "st' = st\<lparr>db := d1, PROMO_CACHE := c1\<rparr>"
    by (cases r1; simp)+
  obtain rp d2 c2 where ps: "promo_step ?ord ((db st)\<lparr>orders := save_order ?ord (orders (db st))\<rparr>, PROMO_CACHE st) = (rp, d2, c2)"
    by (metis prod_cases3)
  from promo_step_fields[OF ps] have u2: "users d2 = users (db st)" by simp
  obtain rg d3 where gs: "grant_step e ?ord d2 = (rg, d3)" by fastforce
  from sp r1 ps gs have "rp = Inr ()" "rg = Inr ()" "d1 = d3"
    by (auto simp: settle_pending_def split: sum.splits)
  with gs have g: "grant_step e ?ord d2 = (Inr (), d1)" by simp
  from u u2 have fu: "findOne (\<lambda>x. uid x = user ?ord) (users d2) = Some u" by (simp add: user_by_id_def)
  from mem have m': "truthy (membershipPlanKey ?ord)" by simp
  from grant_step_membership[OF m' fu g] u2
  have "users d1 = save_user (activateMembership_user e ord u) (users (db st))" by simp
  moreover from u have "uid u = user ord" unfolding user_by_id_def findOne_def by (rule find_key)
  ultimately show ?thesis using u
    by (simp add: user_by_id_def st' user_lookup_save)
qed

text \<open>
  C6. When markOrderPaidAndGrantAccess settles a membership order (months at least 1, as
  the schema demands) the owner's stored membership is ACTIVE on the order's plan. If the
  owner's membership before was on the same plan, ACTIVE, and expiring after now, the new
  expiry is the old expiry moved by membershipMonths months, startedAt is kept and the
  usage counters are kept. In every other case startedAt is now, the expiry is now moved
  by membershipMonths months, and the usage window is reset to start now with both
  counters zero.
\<close>

theorem membership_activation:
  assumes "isValidObjectId e i" "order_by_id i st = Some ord" "status ord = PENDING"
    "truthy (membershipPlanKey ord)" "1 \<le> membershipMonths ord"
    "user_by_id (user ord) st = Some u"
    "markOrderPaidAndGrantAccess e i payId sig raw st = (Inr x, st')"
  shows "\<exists>u'. user_by_id (user ord) st' = Some u' \<and>
           planKey (membership u') = membershipPlanKey ord \<and>
           mstatus (membership u') = M_ACTIVE \<and>
           (if planKey (membership u) = membershipPlanKey ord \<and>
               mstatus (membership u) = M_ACTIVE \<and>
               (case expiresAt (membership u) of None \<Rightarrow> False | Some t \<Rightarrow> now e < t)
            then expiresAt (membership u') =
                   Some (setMonthPlus e (the (expiresAt (membership u))) (membershipMonths ord)) \<and>
                 startedAt (membership u') = startedAt (membership u) \<and>
                 membershipUsage u' = membershipUsage u
            else startedAt (membership u') = Some (now e) \<and>
                 expiresAt (membership u') =
                   Some (setMonthPlus e (now e) (membershipMonths ord)) \<and>
                 membershipUsage u' =
                   \<lparr>periodStart = Some (now e), downloadsUsed = 0, remixRequestsUsed = 0\<rparr>)"
proof -
  from settle_membership_user[OF assms(1-4,6,7)]
  have "user_by_id (user ord) st' = Some (activateMembership_user e ord u)" .
  moreover from assms(5) have "membershipMonths ord \<noteq> 0" by simp
  ultimately show ?thesis
    by (auto simp: activateMembership_user_def Let_def split: option.splits)
qed

text \<open>
  The theorem at work: a two-month renewal of plan GOLD at time 1000 for a member whose
  GOLD membership, started at 10, runs until 5000. The expiry moves from 5000, not from
  1000; start and usage counters stay. The same order for a user without a membership
  starts at 1000 with fresh counters.
\<close>

theorem membership_activation_witness:
  "(\<exists>u'. user_by_id ''u1'' (snd (markOrderPaidAndGrantAccess ex_env ''o1'' ''pay_1'' ''sig'' ex_raw
                                   ex_member)) = Some u' \<and>
         expiresAt (membership u') = Some (5000 + 2 * 2592000000) \<and>
         startedAt (membership u') = Some 10 \<and>
         downloadsUsed (membershipUsage u') = 3)
   \<and> (\<exists>u'. user_by_id ''u1''
               (snd (markOrderPaidAndGrantAccess ex_env ''o1'' ''pay_1'' ''sig'' ex_raw
                       (ex_member\<lparr>db := (db ex_member)\<lparr>users := [ex_user]\<rparr>\<rparr>))) = Some u' \<and>
         expiresAt (membership u') = Some (1000 + 2 * 2592000000) \<and>
         startedAt (membership u') = Some 1000 \<and>
         downloadsUsed (membershipUsage u') = 0)"
proof -
  let ?ord = "ex_order\<lparr>items := [], membershipPlanKey := Some ''GOLD'', membershipMonths := 2\<rparr>"
  let ?u = "ex_user\<lparr>membership := \<lparr>planKey = Some ''GOLD'', startedAt = Some 10,
                                           expiresAt = Some 5000, mstatus = M_ACTIVE\<rparr>,
                          membershipUsage := \<lparr>periodStart = Some 10, downloadsUsed = 3,
                                               remixRequestsUsed = 1\<rparr>\<rparr>"
  let ?fresh = "ex_member\<lparr>db := (db ex_member)\<lparr>users := [ex_user]\<rparr>\<rparr>"
  have v: "isValidObjectId ex_env ''o1''" by (simp add: ex_env_def)
  have o: "order_by_id ''o1'' ex_member = Some ?ord" "order_by_id ''o1'' ?fresh = Some ?ord"
    "status ?ord = PENDING" "truthy (membershipPlanKey ?ord)" "1 \<le> membershipMonths ?ord"
    "user ?ord = ''u1''"
    by (simp_all add: ex_defs ex_member_def order_by_id_def findOne_def)
  have us: "user_by_id (user ?ord) ex_member = Some ?u" "user_by_id (user ?ord) ?fresh = Some ex_user"
    by (simp_all add: ex_defs ex_member_def user_by_id_def findOne_def)
  obtain x st' where r: "markOrderPaidAndGrantAccess ex_env ''o1'' ''pay_1'' ''sig'' ex_raw ex_member
                          = (Inr x, st')"
    by (simp add: settle_defs ex_defs ex_member_def Let_def)
  obtain y st'' where r': "markOrderPaidAndGrantAccess ex_env ''o1'' ''pay_1'' ''sig'' ex_raw ?fresh
                          = (Inr y, st'')"
    by (simp add: settle_defs ex_defs ex_member_def Let_def)
  from membership_activation[OF v o(1,3,4,5) us(1) r]
  have a: "\<exists>u'. user_by_id ''u1'' st' = Some u' \<and>
         expiresAt (membership u') = Some (5000 + 2 * 2592000000) \<and>
         startedAt (membership u') = Some 10 \<and> downloadsUsed (membershipUsage u') = 3"
    by (auto simp: ex_defs)
  from membership_activation[OF v o(2,3,4,5) us(2) r']
  have b: "\<exists>u'. user_by_id ''u1'' st'' = Some u' \<and>
         expiresAt (membership u') = Some (1000 + 2 * 2592000000) \<and>
         startedAt (membership u') = Some 1000 \<and> downloadsUsed (membershipUsage u') = 0"
    by (auto simp: ex_defs)
  from a b r r' show ?thesis by simp
qed


section \<open>Refunds and the gateway webhook\<close>

lemmas handler_defs = handlePaymentEvent_def razorpayWebhookHandler_def handleRefundEvent_def
  initiateRefund_def order_save_def webhookRaw_def emptyRaw_def rawOf_def minorUnits_def
  verifyOrder_def verifySchema_ok_def is_hex24_def clientRaw_def refundOrder_def
  revokeOrderAccess_def lockQuery_def lockedDoc_def refundedDoc_def rollbackDoc_def
  refundQuery_def

lemma mark_refundCalls:
  "refundCalls (snd (markOrderPaidAndGrantAccess e i payId sig raw st)) = refundCalls st"
  by (auto simp: markOrderPaidAndGrantAccess_def split: prod.splits sum.splits)

lemma refund_of_failed_throws:
  "status ord = FAILED \<Longrightarrow> \<exists>err. initiateRefund e ord st = (Inl err, st)"
  by (simp add: initiateRefund_def)

text \<open>
  Whenever settlement throws in the payment.captured handler, the handler itself throws:
  it marks the order FAILED and then asks for a refund of that in-memory order, which
  the refund service refuses for every status but PAID. No gateway call is made.
\<close>

lemma delivery_failure_rejects:
  assumes "findOne (\<lambda>x. paymentOrderId x = Some (pay_order_id payment)) (orders (db st)) = Some ord"
    "status ord = PENDING"
    "fst (markOrderPaidAndGrantAccess e (oid ord) (pay_id payment) ''razorpay-webhook''
            (webhookRaw ''payment.captured'' payment) st) = Inl err"
  shows "(\<exists>err'. fst (handlePaymentEvent e ''payment.captured'' payment st) = Inl err') \<and>
         refundCalls (snd (handlePaymentEvent e ''payment.captured'' payment st)) = refundCalls st"
proof -
  obtain r st1 where m: "markOrderPaidAndGrantAccess e (oid ord) (pay_id payment) ''razorpay-webhook''
            (webhookRaw ''payment.captured'' payment) st = (r, st1)" by fastforce
  with assms(3) have r: "r = Inl err" by simp
  from mark_refundCalls[of e "oid ord" "pay_id payment" "''razorpay-webhook''"
      "webhookRaw ''payment.captured'' payment" st] m
  have rc: "refundCalls st1 = refundCalls st" by simp
  let ?ord' = "ord\<lparr>status := FAILED, cancelReason := Some SYSTEM_CANCELLED\<rparr>"
  let ?st2 = "st1\<lparr>db := (db st1)\<lparr>orders := save_order ?ord' (orders (db st1))\<rparr>\<rparr>"
  from refund_of_failed_throws[of ?ord' e ?st2] obtain err' where
    ir: "initiateRefund e ?ord' ?st2 = (Inl err', ?st2)" by auto
  have "handlePaymentEvent e ''payment.captured'' payment st = (Inl err', ?st2)"
    using assms(1,2) by (simp add: handlePaymentEvent_def m r order_save_def ir)
  with rc show ?thesis by simp
qed

text \<open>
  C1 (the code at a failing input). A signature-verified payment.captured webhook for the
  PENDING example order, whose owner is banned: settlement throws; the handler stores
  the order as FAILED with reason SYSTEM_CANCELLED, then throws itself instead of
  answering 200, and no refund call reaches the gateway.
\<close>

theorem webhook_delivery_failure_throws:
  "fst (markOrderPaidAndGrantAccess ex_env ''o1'' ''pay_1'' ''razorpay-webhook''
          (webhookRaw ''payment.captured'' \<lparr>pay_order_id = ''order_1'', pay_id = ''pay_1''\<rparr>) ex_banned)
     = Inl (Error ''Invalid user state'')
   \<and> razorpayWebhookHandler ex_env ex_captured ex_banned
     = (Inl (Error ''Invalid order or missing paymentId''),
        ex_banned\<lparr>db := (db ex_banned)\<lparr>orders :=
           [ex_order\<lparr>status := FAILED, cancelReason := Some SYSTEM_CANCELLED\<rparr>]\<rparr>\<rparr>)
   \<and> refundCalls (snd (razorpayWebhookHandler ex_env ex_captured ex_banned)) = []"
  by (simp add: handler_defs settle_defs ex_defs ex_banned_def ex_captured_def Let_def)


text \<open>
  C8 (the code at a failing input). The order belongs to user u1 and is already PAID
  with payment id pay_1. User u2 calls client-verify with that payment id and a made-up
  signature, and gets the success response.
\<close>

theorem verify_by_non_owner_succeeds:
  "map user (orders (db ex_two_users)) = [''u1'']
   \<and> verifyOrder ex_env (Some ''u2'') ex_verify_body ex_two_users
     = (Inr (JsonSuccess (Some ''Order already verified via webhook'')), ex_two_users)"
  by (simp add: handler_defs settle_defs ex_defs ex_two_users_def ex_verify_body_def ex_hex_id_def
      Let_def)

lemma find_in_set: "List.find q xs = Some y \<Longrightarrow> y \<in> set xs \<and> q y"
  by (induction xs) (auto split: if_splits)




lemma distinct_keys_differ:
  "distinct (map k xs) \<Longrightarrow> x \<in> set xs \<Longrightarrow> y \<in> set xs \<Longrightarrow> x \<noteq> y \<Longrightarrow> k x \<noteq> k y"
  by (meson distinct_map inj_on_def)





lemma initiateRefund_orders:
  "orders (db (snd (initiateRefund e ord st))) = orders (db st) \<or>
   (\<exists>x. findOne (lockQuery ord) (orders (db st)) = Some x \<and>
     ((\<exists>refund. orders (db (snd (initiateRefund e ord st))) =
         save_order (refundedDoc refund (lockedDoc e x))
           (updateOne (lockQuery ord) (\<lambda>_. lockedDoc e x) (orders (db st))))
      \<or> (\<exists>msg. orders (db (snd (initiateRefund e ord st))) =
         updateOne (\<lambda>y. oid y = oid (lockedDoc e x)) (rollbackDoc e msg)
           (updateOne (lockQuery ord) (\<lambda>_. lockedDoc e x) (orders (db st))))))"
  by (auto simp: initiateRefund_def Let_def split: if_splits option.splits sum.splits error.splits)

lemma doc_simps [simp]:
  "oid (lockedDoc e x) = oid x" "status (lockedDoc e x) = REFUND_INITIATED"
  "oid (refundedDoc r y) = oid y" "status (refundedDoc r y) = status y"
  "oid (rollbackDoc e m y) = oid y" "status (rollbackDoc e m y) = PAID"
  by (simp_all add: lockedDoc_def refundedDoc_def rollbackDoc_def)

lemma lockQuery_found:
  "findOne (lockQuery ord) os = Some x \<Longrightarrow> oid x = oid ord \<and> status x = PAID \<and> x \<in> set os"
  unfolding findOne_def by (auto dest: find_in_set simp: lockQuery_def)








section \<open>The status machine of the operations\<close>

lemma implemented_refl: "implemented_step a a"
  by (simp add: implemented_step_def)

lemma follows_refl: "follows os os"
  by (simp add: list_all2_same implemented_refl)

lemma follows_updateOne:
  assumes "\<forall>x \<in> set os. q x \<longrightarrow> oid (f x) = oid x \<and> implemented_step (status x) (status (f x))"
  shows "follows os (updateOne q f os)"
  using assms
proof (induction os)
  case Nil
  then show ?case by simp
next
  case (Cons a os)
  then show ?case by (auto simp: follows_refl implemented_refl)
qed

lemma follows_updateMany:
  assumes "\<forall>x \<in> set os. q x \<longrightarrow> oid (f x) = oid x \<and> implemented_step (status x) (status (f x))"
  shows "follows os (updateMany q f os)"
  using assms unfolding updateMany_def by (induction os) (auto simp: implemented_refl)

lemma follows_update_id:
  assumes d: "distinct (map oid os)" and x: "x \<in> set os"
    and o: "oid (f x) = oid x" and s: "implemented_step (status x) (status (f x))"
  shows "follows os (updateOne (\<lambda>y. oid y = oid x) f os)"
proof (rule follows_updateOne)
  show "\<forall>y \<in> set os. oid y = oid x \<longrightarrow> oid (f y) = oid y \<and> implemented_step (status y) (status (f y))"
  proof (intro ballI impI)
    fix y assume y: "y \<in> set os" "oid y = oid x"
    have "y = x"
    proof (rule ccontr)
      assume "y \<noteq> x"
      from distinct_keys_differ[OF d y(1) x this] y(2) show False by simp
    qed
    with o s show "oid (f y) = oid y \<and> implemented_step (status y) (status (f y))" by simp
  qed
qed

lemma follows_save:
  assumes d: "distinct (map oid os)" and x: "x \<in> set os"
    and o: "oid ord' = oid x" and s: "implemented_step (status x) (status ord')"
  shows "follows os (save_order ord' os)"
proof -
  have "follows os (updateOne (\<lambda>y. oid y = oid x) (\<lambda>_. ord') os)"
    by (rule follows_update_id[OF d x]) (simp_all add: o s)
  then show ?thesis by (simp add: save_order_def o)
qed

lemma settle_orders:
  assumes "markOrderPaidAndGrantAccess e i payId sig raw st = (r, st')"
  shows "orders (db st') = orders (db st) \<or>
         (\<exists>ord0. findOne (\<lambda>x. oid x = i) (orders (db st)) = Some ord0 \<and> status ord0 = PENDING \<and>
            orders (db st') = save_order (mark_paid e payId sig raw ord0) (orders (db st)))"
proof (cases "isValidObjectId e i")
  case False
  with assms show ?thesis by (simp add: mark_unfold_invalid)
next
  case True
  show ?thesis
  proof (cases "findOne (\<lambda>x. oid x = i) (orders (db st))")
    case None
    with assms True show ?thesis by (simp add: mark_unfold_none)
  next
    case (Some ord0)
    show ?thesis
    proof (cases "status ord0 = PENDING")
      case False
      with assms True Some show ?thesis
        by (auto simp: mark_unfold_other split: if_splits)
    next
      case pend: True
      obtain r1 d1 c1 where sp: "settle_pending e (mark_paid e payId sig raw ord0) (db st, PROMO_CACHE st) = (r1, d1, c1)"
        by (metis prod_cases3)
      note unf = mark_unfold_pending[OF True Some pend sp]
      from settle_pending_orders[OF sp]
      have o1: "orders d1 = save_order (mark_paid e payId sig raw ord0) (orders (db st))" by simp
      show ?thesis
      proof (cases r1)
        case (Inl err)
        with assms unf show ?thesis by auto
      next
        case (Inr x)
        from assms unf Inr have st': "st' = st\<lparr>db := d1, PROMO_CACHE := c1\<rparr>" by auto
        with o1 have "orders (db st') = save_order (mark_paid e payId sig raw ord0) (orders (db st))"
          by simp
        with Some pend show ?thesis by blast
      qed
    qed
  qed
qed

lemma settle_follows:
  assumes d: "distinct (map oid (orders (db st)))"
  shows "follows (orders (db st))
           (orders (db (snd (markOrderPaidAndGrantAccess e i payId sig raw st))))"
proof -
  obtain r st' where m: "markOrderPaidAndGrantAccess e i payId sig raw st = (r, st')" by fastforce
  from settle_orders[OF m] show ?thesis
  proof
    assume same: "orders (db st') = orders (db st)"
    have "follows (orders (db st)) (orders (db st))"
      by (rule follows_refl)
    with same show ?thesis by (simp add: m)
  next
    assume "\<exists>ord0. findOne (\<lambda>x. oid x = i) (orders (db st)) = Some ord0 \<and> status ord0 = PENDING \<and>
            orders (db st') = save_order (mark_paid e payId sig raw ord0) (orders (db st))"
    then obtain ord0 where f: "findOne (\<lambda>x. oid x = i) (orders (db st)) = Some ord0"
      and p: "status ord0 = PENDING"
      and o: "orders (db st') = save_order (mark_paid e payId sig raw ord0) (orders (db st))" by blast
    from f have "ord0 \<in> set (orders (db st))" unfolding findOne_def by (auto dest: find_in_set)
    then have "follows (orders (db st))
                 (save_order (mark_paid e payId sig raw ord0) (orders (db st)))"
      by (rule follows_save[OF d]) (simp_all add: p implemented_step_def)
    then show ?thesis by (simp add: m o)
  qed
qed

lemma payment_handler_orders:
  "orders (db (snd (handlePaymentEvent e ev p st))) = orders (db st)
   \<or> (\<exists>i payId sig raw. orders (db (snd (handlePaymentEvent e ev p st))) =
          orders (db (snd (markOrderPaidAndGrantAccess e i payId sig raw st))))
   \<or> (\<exists>ord ord'. ord \<in> set (orders (db st)) \<and> status ord = PENDING \<and> oid ord' = oid ord \<and>
          status ord' = FAILED \<and>
          orders (db (snd (handlePaymentEvent e ev p st))) = save_order ord' (orders (db st)))"
proof (cases "findOne (\<lambda>x. paymentOrderId x = Some (pay_order_id p)) (orders (db st))")
  case None
  then show ?thesis by (simp add: handlePaymentEvent_def)
next
  case (Some ord)
  then have mem: "ord \<in> set (orders (db st))" unfolding findOne_def by (auto dest: find_in_set)
  show ?thesis
  proof (cases "status ord = PENDING")
    case False
    with Some show ?thesis by (simp add: handlePaymentEvent_def)
  next
    case pend: True
    show ?thesis
    proof (cases "ev = ''payment.failed''")
      case True
      with Some pend show ?thesis by (simp add: handlePaymentEvent_def order_save_def)
    next
      case nf: False
      show ?thesis
      proof (cases "ev = ''payment.captured''")
        case False
        with Some pend nf show ?thesis by (simp add: handlePaymentEvent_def)
      next
        case cap: True
        obtain r st1 where m: "markOrderPaidAndGrantAccess e (oid ord) (pay_id p) ''razorpay-webhook''
            (webhookRaw ev p) st = (r, st1)" by fastforce
        show ?thesis
        proof (cases r)
          case (Inr x)
          with Some pend cap m have "snd (handlePaymentEvent e ev p st) = st1"
            by (simp add: handlePaymentEvent_def)
          with m have "orders (db (snd (handlePaymentEvent e ev p st))) =
             orders (db (snd (markOrderPaidAndGrantAccess e (oid ord) (pay_id p) ''razorpay-webhook''
               (webhookRaw ev p) st)))" by simp
          then show ?thesis by blast
        next
          case (Inl err)
          with mark_abort[of e "oid ord" "pay_id p" "''razorpay-webhook''" "webhookRaw ev p" st err] m
          have d1: "db st1 = db st" by simp
          let ?ord' = "ord\<lparr>status := FAILED, cancelReason := Some SYSTEM_CANCELLED\<rparr>"
          let ?st2 = "st1\<lparr>db := (db st1)\<lparr>orders := save_order ?ord' (orders (db st1))\<rparr>\<rparr>"
          from refund_of_failed_throws[of ?ord' e ?st2] obtain err' where
            ir: "initiateRefund e ?ord' ?st2 = (Inl err', ?st2)" by auto
          have "handlePaymentEvent e ev p st = (Inl err', ?st2)"
            using Some pend cap m Inl ir by (simp add: handlePaymentEvent_def order_save_def)
          then have "orders (db (snd (handlePaymentEvent e ev p st))) = save_order ?ord' (orders (db st))"
            by (simp add: d1)
          moreover have "oid ?ord' = oid ord" "status ?ord' = FAILED" by simp_all
          ultimately show ?thesis using mem pend by blast
        qed
      qed
    qed
  qed
qed

lemma payment_handler_follows:
  assumes d: "distinct (map oid (orders (db st)))"
  shows "follows (orders (db st)) (orders (db (snd (handlePaymentEvent e ev p st))))"
proof -
  from payment_handler_orders[of e ev p st] consider
    (same) "orders (db (snd (handlePaymentEvent e ev p st))) = orders (db st)"
    | (settle) i payId sig raw where "orders (db (snd (handlePaymentEvent e ev p st))) =
          orders (db (snd (markOrderPaidAndGrantAccess e i payId sig raw st)))"
    | (failed) ord ord' where "ord \<in> set (orders (db st))" "status ord = PENDING" "oid ord' = oid ord"
          "status ord' = FAILED"
          "orders (db (snd (handlePaymentEvent e ev p st))) = save_order ord' (orders (db st))"
    by blast
  then show ?thesis
  proof cases
    case same
    then show ?thesis by (simp add: follows_refl)
  next
    case settle
    with settle_follows[OF d] show ?thesis by simp
  next
    case failed
    from failed(1) have "follows (orders (db st)) (save_order ord' (orders (db st)))"
      by (rule follows_save[OF d]) (simp_all add: failed implemented_step_def)
    with failed(5) show ?thesis by simp
  qed
qed

lemma refund_handler_follows:
  assumes d: "distinct (map oid (orders (db st)))"
  shows "follows (orders (db st)) (orders (db (snd (handleRefundEvent e refund st))))"
proof (cases "findOne (refundQuery (refund_payment_id refund)) (orders (db st))")
  case None
  then show ?thesis by (simp add: handleRefundEvent_def follows_refl)
next
  case (Some ord)
  then have mem: "ord \<in> set (orders (db st))" unfolding findOne_def by (auto dest: find_in_set)
  show ?thesis
  proof (cases "status ord = PAID")
    case False
    with Some show ?thesis by (simp add: handleRefundEvent_def follows_refl)
  next
    case True
    let ?ord' = "ord\<lparr>status := REFUNDED,
                     paymentRaw := Some ((rawOf ord)\<lparr>raw_refundCompletedAt := Some (now e),
                                                      raw_refund := Some (refund_id refund)\<rparr>)\<rparr>"
    from mem have "follows (orders (db st)) (save_order ?ord' (orders (db st)))"
      by (rule follows_save[OF d]) (simp_all add: True implemented_step_def)
    with Some True show ?thesis by (simp add: handleRefundEvent_def)
  qed
qed

lemma webhook_follows:
  assumes d: "distinct (map oid (orders (db st)))"
  shows "follows (orders (db st)) (orders (db (snd (razorpayWebhookHandler e req st))))"
  using payment_handler_follows[OF d] refund_handler_follows[OF d]
  by (simp add: razorpayWebhookHandler_def follows_refl split: option.splits)

lemma verify_orders:
  "orders (db (snd (verifyOrder e a b st))) = orders (db st)
   \<or> (\<exists>i payId sig raw. orders (db (snd (verifyOrder e a b st))) =
          orders (db (snd (markOrderPaidAndGrantAccess e i payId sig raw st))))"
proof (cases "\<exists>r. verifyOrder e a b st = (r, st)")
  case True
  then show ?thesis by auto
next
  case False
  obtain r st1 where m: "markOrderPaidAndGrantAccess e (v_orderId b) (v_razorpayPaymentId b)
                              (v_razorpaySignature b) (clientRaw b) st = (r, st1)" by fastforce
  from False have "snd (verifyOrder e a b st) = st1"
    by (cases r) (auto simp: verifyOrder_def m split: if_splits option.splits)
  with m have "orders (db (snd (verifyOrder e a b st))) =
          orders (db (snd (markOrderPaidAndGrantAccess e (v_orderId b) (v_razorpayPaymentId b)
                              (v_razorpaySignature b) (clientRaw b) st)))" by simp
  then show ?thesis by blast
qed

lemma verify_follows:
  assumes d: "distinct (map oid (orders (db st)))"
  shows "follows (orders (db st)) (orders (db (snd (verifyOrder e a b st))))"
  using verify_orders[of e a b st] settle_follows[OF d]
  by (auto simp: follows_refl)

lemma lock_then_write:
  assumes "distinct (map oid os)" "List.find (lockQuery ord) os = Some x" "oid L = oid x"
  shows "updateOne (\<lambda>y. oid y = oid x) g (updateOne (lockQuery ord) (\<lambda>_. L) os)
         = updateOne (\<lambda>y. oid y = oid x) (\<lambda>_. g L) os"
  using assms(1,2)
proof (induction os)
  case Nil
  then show ?case by simp
next
  case (Cons a os)
  show ?case
  proof (cases "lockQuery ord a")
    case True
    with Cons.prems have "x = a" by simp
    with True assms(3) show ?thesis by simp
  next
    case False
    with Cons.prems have f: "List.find (lockQuery ord) os = Some x" by simp
    then have "x \<in> set os" by (auto dest: find_in_set)
    with Cons.prems(1) have "oid a \<noteq> oid x" by auto
    moreover from Cons.prems(1) have "distinct (map oid os)" by simp
    ultimately show ?thesis using False Cons.IH f by simp
  qed
qed

lemma initiateRefund_follows:
  assumes d: "distinct (map oid (orders (db st)))"
  shows "follows (orders (db st)) (orders (db (snd (initiateRefund e ord st))))"
proof -
  let ?os = "orders (db st)"
  let ?os' = "orders (db (snd (initiateRefund e ord st)))"
  from initiateRefund_orders[of e ord st] consider
    (same) "?os' = ?os"
    | (ok) x refund where "findOne (lockQuery ord) ?os = Some x"
        "?os' = save_order (refundedDoc refund (lockedDoc e x))
           (updateOne (lockQuery ord) (\<lambda>_. lockedDoc e x) ?os)"
    | (undo) x msg where "findOne (lockQuery ord) ?os = Some x"
        "?os' = updateOne (\<lambda>y. oid y = oid (lockedDoc e x)) (rollbackDoc e msg)
           (updateOne (lockQuery ord) (\<lambda>_. lockedDoc e x) ?os)"
    by blast
  then show ?thesis
  proof cases
    case same
    then show ?thesis by (simp add: follows_refl)
  next
    case ok
    from lockQuery_found[OF ok(1)] have x: "status x = PAID" "x \<in> set ?os" by simp_all
    from ok(1) have f: "List.find (lockQuery ord) ?os = Some x" by (simp add: findOne_def)
    have "?os' = updateOne (\<lambda>y. oid y = oid x) (\<lambda>_. refundedDoc refund (lockedDoc e x)) ?os"
      using lock_then_write[OF d f, of "lockedDoc e x" "\<lambda>_. refundedDoc refund (lockedDoc e x)"]
      by (simp add: ok(2) save_order_def)
    moreover have "follows ?os
        (updateOne (\<lambda>y. oid y = oid x) (\<lambda>_. refundedDoc refund (lockedDoc e x)) ?os)"
      by (rule follows_update_id[OF d x(2)]) (simp_all add: x implemented_step_def)
    ultimately show ?thesis by simp
  next
    case undo
    from lockQuery_found[OF undo(1)] have x: "status x = PAID" "x \<in> set ?os" by simp_all
    from undo(1) have f: "List.find (lockQuery ord) ?os = Some x" by (simp add: findOne_def)
    have "?os' = updateOne (\<lambda>y. oid y = oid x) (\<lambda>_. rollbackDoc e msg (lockedDoc e x)) ?os"
      using lock_then_write[OF d f, of "lockedDoc e x" "rollbackDoc e msg"]
      by (simp add: undo(2))
    moreover have "follows ?os
        (updateOne (\<lambda>y. oid y = oid x) (\<lambda>_. rollbackDoc e msg (lockedDoc e x)) ?os)"
      by (rule follows_update_id[OF d x(2)]) (simp_all add: x implemented_step_def)
    ultimately show ?thesis by simp
  qed
qed

lemma refundOrder_orders:
  "orders (db (snd (refundOrder e i st))) = orders (db st)
   \<or> (\<exists>ord us. orders (db (snd (refundOrder e i st))) =
         orders (db (snd (initiateRefund e ord (st\<lparr>db := (db st)\<lparr>users := us\<rparr>\<rparr>)))))"
proof (cases "findOne (\<lambda>x. oid x = i) (orders (db st))")
  case None
  then show ?thesis by (simp add: refundOrder_def)
next
  case (Some ord)
  let ?st1 = "st\<lparr>db := (db st)\<lparr>users := revokeOrderAccess e ord (users (db st))\<rparr>\<rparr>"
  have "snd (refundOrder e i st) = st \<or> snd (refundOrder e i st) = snd (initiateRefund e ord ?st1)"
    using Some by (simp add: refundOrder_def split: prod.splits sum.splits)
  then show ?thesis
  proof
    assume "snd (refundOrder e i st) = st"
    then show ?thesis by simp
  next
    assume "snd (refundOrder e i st) = snd (initiateRefund e ord ?st1)"
    then have "orders (db (snd (refundOrder e i st))) = orders (db (snd (initiateRefund e ord ?st1)))"
      by simp
    then show ?thesis by blast
  qed
qed

lemma refundOrder_follows:
  assumes d: "distinct (map oid (orders (db st)))"
  shows "follows (orders (db st)) (orders (db (snd (refundOrder e i st))))"
proof -
  from refundOrder_orders[of e i st] show ?thesis
  proof
    assume "orders (db (snd (refundOrder e i st))) = orders (db st)"
    then show ?thesis by (simp add: follows_refl)
  next
    assume "\<exists>ord us. orders (db (snd (refundOrder e i st))) =
         orders (db (snd (initiateRefund e ord (st\<lparr>db := (db st)\<lparr>users := us\<rparr>\<rparr>))))"
    then obtain ord us where o: "orders (db (snd (refundOrder e i st))) =
         orders (db (snd (initiateRefund e ord (st\<lparr>db := (db st)\<lparr>users := us\<rparr>\<rparr>))))" by blast
    from d have "distinct (map oid (orders (db (st\<lparr>db := (db st)\<lparr>users := us\<rparr>\<rparr>))))" by simp
    from initiateRefund_follows[OF this, of e ord] o show ?thesis by simp
  qed
qed

lemma reaper_follows:
  "follows (orders (db st)) (orders (db (autoCancelPendingOrders e st)))"
proof -
  have "follows (orders (db st))
          (updateMany (reaperFilter e)
             (\<lambda>x. x\<lparr>status := CANCELLED, cancelReason := Some PAYMENT_TIMEOUT,
                     completedAt := Some (now e)\<rparr>) (orders (db st)))"
    by (rule follows_updateMany) (simp add: reaperFilter_def implemented_step_def)
  then show ?thesis
    by (simp add: autoCancelPendingOrders_def Let_def follows_refl)
qed

text \<open>
  The status machine that the operations after creation implement, when order ids are
  distinct: each of settlement, client verification, the gateway webhook, the admin
  refund and the reaper leaves every stored order in place, with its status unchanged or
  moved along PENDING to PAID, FAILED or CANCELLED, or PAID to REFUND_INITIATED or
  REFUNDED. No operation moves an order out of REFUND_INITIATED: the rollback to PAID
  happens inside the refund call that set it, and the refund webhook only acts on PAID.
\<close>

lemma implemented_status_machine:
  assumes "distinct (map oid (orders (db st)))"
  shows "statuses_follow implemented_step st (apply_op op st)"
  unfolding statuses_follow_def
  using settle_follows[OF assms] verify_follows[OF assms] webhook_follows[OF assms]
    refundOrder_follows[OF assms] reaper_follows
  by (cases op) simp_all


section \<open>Order amounts\<close>



lemma cents_simps [simp]: "cents 0" "cents 1"
  unfolding cents_def by (rule exI[of _ 0], simp) (rule exI[of _ 100], simp)




lemma toFixed2_0 [simp]: "toFixed2 0 = 0"
  by (simp add: toFixed2_def floor_eq_iff)

















section \<open>Promo usage under the capacity guard\<close>












lemma limitError_isl [simp]: "isl limitError"
  by (simp add: limitError_def)




end
